theory Spec2Isabelle
  imports Complex_Main "HOL-Library.Word" "HOL-Library.Multiset"
begin

section \<open>JavaScript strings\<close>

text \<open>
  A JavaScript string is a sequence of UTF-16 code units and \<open>.length\<close> counts code
  units, so a string is modelled as a list of 16-bit words.  \<open>ascii\<close> embeds an ASCII
  literal.
\<close>

type_synonym jschar = "16 word"
type_synonym jsstring = "jschar list"

definition ascii :: "string \<Rightarrow> jsstring" where
  "ascii s = map of_char s"

definition nl :: jschar where
  "nl = 10"

text \<open>\<open>String.prototype.split('\n')\<close>: always at least one piece.\<close>

fun jsplit :: "jsstring \<Rightarrow> jsstring list" where
  "jsplit [] = [[]]"
| "jsplit (c # cs) =
     (if c = nl then [] # jsplit cs
      else (c # hd (jsplit cs)) # tl (jsplit cs))"

text \<open>\<open>Array.prototype.join('\n')\<close>.\<close>

fun joinNl :: "jsstring list \<Rightarrow> jsstring" where
  "joinNl [] = []"
| "joinNl [x] = x"
| "joinNl (x # y # ys) = x @ nl # joinNl (y # ys)"

section \<open>Message chunker (src/telegram/sender.js)\<close>

definition TELEGRAM_MAX_MESSAGE_LENGTH :: nat where
  "TELEGRAM_MAX_MESSAGE_LENGTH = 4096"

text \<open>
  The inner \<open>while (remaining.length > maxLength)\<close> loop of \<open>splitMessage\<close>.  With
  \<open>maxLength = 0\<close> it never ends, so the loop is a partial function: \<open>None\<close> is
  non-termination.  The result is the extended \<open>messages\<close> array and the final
  \<open>remaining\<close>.
\<close>

partial_function (option) hardSplit ::
  "nat \<Rightarrow> jsstring list \<Rightarrow> jsstring \<Rightarrow> (jsstring list \<times> jsstring) option" where
  "hardSplit maxLength messages remaining =
     (if length remaining > maxLength
      then hardSplit maxLength (messages @ [take maxLength remaining]) (drop maxLength remaining)
      else Some (messages, remaining))"

declare hardSplit.simps [code]

text \<open>One iteration of \<open>for (const line of lines)\<close> on the state
  \<open>(messages, currentMessage)\<close>.  An empty string is falsy.\<close>

definition splitStep ::
  "nat \<Rightarrow> jsstring list \<times> jsstring \<Rightarrow> jsstring \<Rightarrow> (jsstring list \<times> jsstring) option" where
  "splitStep maxLength st line =
     (case st of (messages, currentMessage) \<Rightarrow>
        if length currentMessage + length line + 1 \<le> maxLength
        then Some (messages, currentMessage @ (if currentMessage \<noteq> [] then [nl] else []) @ line)
        else
          let messages' = (if currentMessage \<noteq> [] then messages @ [currentMessage] else messages)
          in if length line > maxLength
             then hardSplit maxLength messages' line
             else Some (messages', line))"

fun splitLines ::
  "nat \<Rightarrow> jsstring list \<times> jsstring \<Rightarrow> jsstring list \<Rightarrow> (jsstring list \<times> jsstring) option" where
  "splitLines maxLength st [] = Some st"
| "splitLines maxLength st (line # lines) =
     (case splitStep maxLength st line of
        None \<Rightarrow> None
      | Some st' \<Rightarrow> splitLines maxLength st' lines)"

definition splitMessage :: "jsstring \<Rightarrow> nat \<Rightarrow> jsstring list option" where
  "splitMessage message maxLength =
     (if length message \<le> maxLength then Some [message]
      else
        (case splitLines maxLength ([], []) (jsplit message) of
           None \<Rightarrow> None
         | Some (messages, currentMessage) \<Rightarrow>
             Some (if currentMessage \<noteq> [] then messages @ [currentMessage] else messages)))"

text \<open>Invariant of the line loop: every chunk already pushed is non-empty and within
  the limit, and so is the length of the chunk being built.\<close>

definition chunk_inv :: "nat \<Rightarrow> jsstring list \<times> jsstring \<Rightarrow> bool" where
  "chunk_inv n st = ((\<forall>m \<in> set (fst st). m \<noteq> [] \<and> length m \<le> n) \<and> length (snd st) \<le> n)"

text \<open>
  Reference function for the hard split of one line: the pieces of \<open>maxLen\<close> code
  units into which a line longer than \<open>maxLen\<close> is cut, the last piece holding the
  rest; a line within the limit is its own single piece.
\<close>

function hardPieces :: "nat \<Rightarrow> jsstring \<Rightarrow> jsstring list" where
  "hardPieces n l = (if n = 0 \<or> length l \<le> n then [l] else take n l # hardPieces n (drop n l))"
  by pat_completeness auto
termination
  by (relation "measure (\<lambda>(n, l). length l)") auto

declare hardPieces.simps [simp del]

text \<open>The chunks a loop state stands for: the pushed messages, then the chunk being
  built when it is not empty (what the final \<open>if (currentMessage)\<close> pushes).\<close>

definition chunksOf :: "jsstring list \<times> jsstring \<Rightarrow> jsstring list" where
  "chunksOf st = fst st @ (if snd st \<noteq> [] then [snd st] else [])"

text \<open>
  When the chunker drops a line: an empty line that arrives while the chunk being built
  is empty, or already holds \<open>maxLength\<close> code units, leaves no trace in the chunks.
  \<open>dropsBlank\<close> follows the loop and tells whether that happens for some line;
  \<open>survivingPieces\<close> follows the loop and lists, for the lines that are not dropped, the
  pieces of the reference hard split.
\<close>

definition blankDropped :: "nat \<Rightarrow> jsstring \<Rightarrow> jsstring \<Rightarrow> bool" where
  "blankDropped maxLength currentMessage line =
     (line = [] \<and> (currentMessage = [] \<or> maxLength \<le> length currentMessage))"

fun dropsBlank :: "nat \<Rightarrow> jsstring list \<times> jsstring \<Rightarrow> jsstring list \<Rightarrow> bool" where
  "dropsBlank maxLength st [] = False"
| "dropsBlank maxLength st (line # lines) =
     (blankDropped maxLength (snd st) line
      \<or> (case splitStep maxLength st line of
            None \<Rightarrow> False
          | Some st' \<Rightarrow> dropsBlank maxLength st' lines))"

fun survivingPieces :: "nat \<Rightarrow> jsstring list \<times> jsstring \<Rightarrow> jsstring list \<Rightarrow> jsstring list" where
  "survivingPieces maxLength st [] = []"
| "survivingPieces maxLength st (line # lines) =
     (if blankDropped maxLength (snd st) line then [] else hardPieces maxLength line)
     @ (case splitStep maxLength st line of
          None \<Rightarrow> []
        | Some st' \<Rightarrow> survivingPieces maxLength st' lines)"

section \<open>JavaScript values\<close>

text \<open>
  A JavaScript number, as far as the pipeline uses one: it is compared, clamped and
  tested for truthiness, never added or multiplied, so a finite double is a rational
  and \<open>NaN\<close> and the two infinities are values of their own (\<open>JSON.parse\<close> gives
  \<open>Infinity\<close> for \<open>1e999\<close>).
\<close>

datatype jsnum = NaN | NegInf | Fin rat | PosInf

text \<open>A value produced by \<open>JSON.parse\<close>.  An object is the list of its own
  properties, each key once.\<close>

datatype json =
    JNull
  | JBool bool
  | JNum jsnum
  | JStr jsstring
  | JArr "json list"
  | JObj "(jsstring \<times> json) list"

text \<open>A thrown exception, with its \<open>message\<close>.\<close>

datatype jserror = Error jsstring

fun message :: "jserror \<Rightarrow> jsstring" where
  "message (Error m) = m"

text \<open>Property access \<open>obj.key\<close> on a parsed object: \<open>None\<close> is \<open>undefined\<close>.\<close>

definition getProp :: "(jsstring \<times> json) list \<Rightarrow> string \<Rightarrow> json option" where
  "getProp obj key = map_of obj (ascii key)"

text \<open>Truthiness, for \<open>||\<close> and \<open>if\<close>.\<close>

fun truthy :: "json \<Rightarrow> bool" where
  "truthy JNull = False"
| "truthy (JBool b) = b"
| "truthy (JNum n) = (n \<noteq> NaN \<and> n \<noteq> Fin 0)"
| "truthy (JStr s) = (s \<noteq> [])"
| "truthy (JArr xs) = True"
| "truthy (JObj kvs) = True"

text \<open>\<open>x || d\<close> where \<open>x\<close> is a property that may be missing.\<close>

definition orElse :: "json option \<Rightarrow> json \<Rightarrow> json" where
  "orElse x d = (case x of None \<Rightarrow> d | Some v \<Rightarrow> if truthy v then v else d)"

section \<open>News items\<close>

text \<open>
  \<open>String.prototype.includes\<close>: the keyword occurs in the text as a contiguous run of
  code units.
\<close>

fun startsWith :: "jsstring \<Rightarrow> jsstring \<Rightarrow> bool" where
  "startsWith text [] = True"
| "startsWith [] (k # ks) = False"
| "startsWith (c # cs) (k # ks) = (c = k \<and> startsWith cs ks)"

fun jsIncludes :: "jsstring \<Rightarrow> jsstring \<Rightarrow> bool" where
  "jsIncludes [] kw = (kw = [])"
| "jsIncludes (c # cs) kw = (startsWith (c # cs) kw \<or> jsIncludes cs kw)"

text \<open>
  \<open>String.prototype.toLowerCase\<close> is a built-in over all of Unicode; the functions
  below take it as the parameter \<open>lower\<close>.  \<open>asciiLower\<close> is its restriction to the
  letters A to Z, which is what it does on ASCII text.
\<close>

definition asciiLower :: "jsstring \<Rightarrow> jsstring" where
  "asciiLower s = map (\<lambda>c. if 65 \<le> c \<and> c \<le> 90 then c + 32 else c) s"

section \<open>Keyword prefilter (src/filters/keywordFilter.js)\<close>

definition KEYWORDS_crypto :: "jsstring list" where
  "KEYWORDS_crypto = map ascii
     [''crypto'', ''cryptocurrency'', ''bitcoin'', ''btc'', ''ethereum'', ''eth'',
      ''blockchain'', ''digital currency'', ''stablecoin'', ''defi'', ''nft'',
      ''altcoin'', ''token'', ''wallet'', ''exchange'', ''mining'', ''hash'',
      ''satoshi'', ''hodl'', ''fiat'', ''crypto market'', ''digital asset'']"

definition KEYWORDS_fed :: "jsstring list" where
  "KEYWORDS_fed = map ascii
     [''federal reserve'', ''fed'', ''fomc'', ''interest rate'', ''monetary policy'',
      ''powell'', ''inflation'', ''deflation'', ''quantitative easing'', ''qe'',
      ''tapering'', ''rate hike'', ''rate cut'', ''federal funds rate'',
      ''central bank'', ''jerome powell'', ''fed chair'']"

definition KEYWORDS_macro :: "jsstring list" where
  "KEYWORDS_macro = map ascii
     [''gdp'', ''unemployment'', ''cpi'', ''ppi'', ''treasury'', ''bond yield'',
      ''economic growth'', ''recession'', ''stagflation'', ''fiscal policy'',
      ''government spending'', ''debt ceiling'', ''trade deficit'', ''surplus'',
      ''employment'', ''job market'', ''consumer price'', ''producer price'',
      ''economic indicator'', ''macroeconomic'']"

text \<open>The object \<open>countCategoryMatches\<close> returns and \<open>filterByKeywords\<close> stores in
  \<open>item.keywordMatches\<close>.\<close>

record category_matches =
  crypto :: bool
  fed :: bool
  macro :: bool
  categoryCount :: nat

text \<open>The object \<open>scoreImpact\<close> returns.  The three text fields hold whatever truthy
  value the oracle's JSON had there, or the default string.\<close>

record impact_score =
  policyStrength :: jsnum
  expectationGap :: jsnum
  timeUrgency :: jsnum
  cryptoRelevance :: jsnum
  totalScore :: jsnum
  level :: json
  direction :: json
  reasoning :: json

text \<open>
  A news item: the fields the fetchers set that the later stages read (\<open>title\<close>,
  \<open>description\<close>, \<open>url\<close>) and the fields the stages attach, \<open>None\<close> while a field
  is still \<open>undefined\<close>.  The fields \<open>publishedAt\<close>, \<open>source\<close> and \<open>type\<close>, which
  only the summary text reads, live in the record's extension slot.
\<close>

record news_item =
  title :: jsstring
  description :: jsstring
  url :: jsstring
  keywordMatches :: "category_matches option"
  aiScore :: "json option"
  aiReason :: "json option"
  impact :: "impact_score option"

definition containsKeywords :: "(jsstring \<Rightarrow> jsstring) \<Rightarrow> jsstring \<Rightarrow> jsstring list \<Rightarrow> bool" where
  "containsKeywords lower text keywords =
     (if text = [] then False
      else let lowerText = lower text
           in list_ex (\<lambda>keyword. jsIncludes lowerText (lower keyword)) keywords)"

definition countCategoryMatches ::
  "(jsstring \<Rightarrow> jsstring) \<Rightarrow> jsstring \<Rightarrow> jsstring \<Rightarrow> category_matches" where
  "countCategoryMatches lower t d =
     (let combinedText = t @ ascii '' '' @ d;
          c = containsKeywords lower combinedText KEYWORDS_crypto;
          f = containsKeywords lower combinedText KEYWORDS_fed;
          m = containsKeywords lower combinedText KEYWORDS_macro
      in \<lparr>crypto = c, fed = f, macro = m,
          categoryCount = length (filter (\<lambda>b. b) [c, f, m])\<rparr>)"

text \<open>\<open>news.filter\<close> with a callback that annotates the items it keeps.\<close>

fun filterByKeywords ::
  "(jsstring \<Rightarrow> jsstring) \<Rightarrow> 'a news_item_scheme list \<Rightarrow> 'a news_item_scheme list" where
  "filterByKeywords lower [] = []"
| "filterByKeywords lower (item # news) =
     (let matches = countCategoryMatches lower (title item) (description item)
      in if categoryCount matches \<ge> 2
         then item\<lparr>keywordMatches := Some matches\<rparr> # filterByKeywords lower news
         else filterByKeywords lower news)"

text \<open>
  The claim's words for the prefilter: a category is triggered when any of its keywords,
  lower-cased, is a substring of the lower-cased text made of the title, one space and
  the description; \<open>matched_categories\<close> counts the triggered ones among the three.
\<close>

definition category_triggered ::
  "(jsstring \<Rightarrow> jsstring) \<Rightarrow> 'a news_item_scheme \<Rightarrow> jsstring list \<Rightarrow> bool" where
  "category_triggered lower item keywords =
     (\<exists>kw \<in> set keywords.
        jsIncludes (lower (title item @ ascii '' '' @ description item)) (lower kw))"

definition matched_categories :: "(jsstring \<Rightarrow> jsstring) \<Rightarrow> 'a news_item_scheme \<Rightarrow> nat" where
  "matched_categories lower item =
     length (filter (category_triggered lower item)
               [KEYWORDS_crypto, KEYWORDS_fed, KEYWORDS_macro])"

text \<open>Four sample items, triggering 0, 1, 2 and 3 categories.\<close>

definition example_news :: "news_item list" where
  "example_news =
     [\<lparr>title = ascii ''Rain'', description = [], url = ascii ''u0'',
        keywordMatches = None, aiScore = None, aiReason = None, impact = None\<rparr>,
      \<lparr>title = ascii ''BTC up'', description = [], url = ascii ''u1'',
        keywordMatches = None, aiScore = None, aiReason = None, impact = None\<rparr>,
      \<lparr>title = ascii ''BTC'', description = ascii ''Fed'', url = ascii ''u2'',
        keywordMatches = None, aiScore = None, aiReason = None, impact = None\<rparr>,
      \<lparr>title = ascii ''Btc Fed'', description = ascii ''GDP'', url = ascii ''u3'',
        keywordMatches = None, aiScore = None, aiReason = None, impact = None\<rparr>]"

definition example_news_kept :: "news_item list" where
  "example_news_kept =
     [\<lparr>title = ascii ''BTC'', description = ascii ''Fed'', url = ascii ''u2'',
        keywordMatches = Some \<lparr>crypto = True, fed = True, macro = False, categoryCount = 2\<rparr>,
        aiScore = None, aiReason = None, impact = None\<rparr>,
      \<lparr>title = ascii ''Btc Fed'', description = ascii ''GDP'', url = ascii ''u3'',
        keywordMatches = Some \<lparr>crypto = True, fed = True, macro = True, categoryCount = 3\<rparr>,
        aiScore = None, aiReason = None, impact = None\<rparr>]"

section \<open>Numbers and coercion\<close>

text \<open>The relation \<open>a <= b\<close> on numbers: false as soon as one side is \<open>NaN\<close>.\<close>

fun numLe :: "jsnum \<Rightarrow> jsnum \<Rightarrow> bool" where
  "numLe NaN b = False"
| "numLe a NaN = False"
| "numLe NegInf b = True"
| "numLe (Fin a) NegInf = False"
| "numLe (Fin a) (Fin b) = (a \<le> b)"
| "numLe (Fin a) PosInf = True"
| "numLe PosInf PosInf = True"
| "numLe PosInf b = False"

text \<open>\<open>Math.min\<close> and \<open>Math.max\<close> of two numbers: \<open>NaN\<close> when either is \<open>NaN\<close>.\<close>

definition mathMin :: "jsnum \<Rightarrow> jsnum \<Rightarrow> jsnum" where
  "mathMin a b = (if a = NaN \<or> b = NaN then NaN else if numLe a b then a else b)"

definition mathMax :: "jsnum \<Rightarrow> jsnum \<Rightarrow> jsnum" where
  "mathMax a b = (if a = NaN \<or> b = NaN then NaN else if numLe a b then b else a)"

text \<open>
  The built-ins the AI stages call whose definitions are the language's, taken as
  parameters:
  \<^item> \<open>jsonParse\<close>: \<open>JSON.parse\<close> on the text the regular expression \<open>/\{[\s\S]*\}/\<close>
    matched (it starts with a brace, so a successful parse is an object); \<open>None\<close> when
    it throws;
  \<^item> \<open>stringToNumber\<close>: the conversion of a string to a number (\<open>NaN\<close> when the
    string is not a numeric literal);
  \<^item> \<open>arrayToString\<close>: \<open>Array.prototype.toString\<close>, which may throw;
  \<^item> \<open>matchScore\<close>: the match of
    \<open>/["']?score["']?\s*[:=]\s*(\d+(?:\.\d+)?)/i\<close> followed by \<open>parseFloat\<close> of its
    group; \<open>None\<close> when the text has no match.
\<close>

record platform =
  jsonParse :: "jsstring \<Rightarrow> (jsstring \<times> json) list option"
  stringToNumber :: "jsstring \<Rightarrow> jsnum"
  arrayToString :: "json list \<Rightarrow> jserror + jsstring"
  matchScore :: "jsstring \<Rightarrow> jsnum option"

text \<open>The message of the \<open>TypeError\<close> raised when an object has no callable
  \<open>valueOf\<close> or \<open>toString\<close>.\<close>

definition TypeError_primitive :: jserror where
  "TypeError_primitive = Error (ascii ''Cannot convert object to primitive value'')"

text \<open>
  \<open>ToNumber\<close> of a parsed JSON value.  A plain object converts through
  \<open>Object.prototype.toString\<close> to \<open>"[object Object]"\<close>, hence to \<open>NaN\<close>; an own
  property \<open>toString\<close> (never callable in parsed JSON) makes the conversion throw.
\<close>

fun toNumber :: "platform \<Rightarrow> json \<Rightarrow> jserror + jsnum" where
  "toNumber P JNull = Inr (Fin 0)"
| "toNumber P (JBool b) = Inr (Fin (if b then 1 else 0))"
| "toNumber P (JNum n) = Inr n"
| "toNumber P (JStr s) = Inr (stringToNumber P s)"
| "toNumber P (JArr xs) =
     (case arrayToString P xs of Inl e \<Rightarrow> Inl e | Inr s \<Rightarrow> Inr (stringToNumber P s))"
| "toNumber P (JObj kvs) =
     (if map_of kvs (ascii ''toString'') \<noteq> None then Inl TypeError_primitive else Inr NaN)"

text \<open>
  The exception, if any, that the conversion of a parsed JSON value to a string raises
  in a template literal \<open>`${v}`\<close>.  The text itself only goes to the console.  As for
  \<open>ToNumber\<close>, an object with an own property \<open>toString\<close> cannot be converted, and an
  array is converted by \<open>Array.prototype.toString\<close>.
\<close>

fun stringifyError :: "platform \<Rightarrow> json \<Rightarrow> jserror option" where
  "stringifyError P JNull = None"
| "stringifyError P (JBool b) = None"
| "stringifyError P (JNum n) = None"
| "stringifyError P (JStr s) = None"
| "stringifyError P (JArr xs) = (case arrayToString P xs of Inl e \<Rightarrow> Some e | Inr s \<Rightarrow> None)"
| "stringifyError P (JObj kvs) =
     (if map_of kvs (ascii ''toString'') \<noteq> None then Some TypeError_primitive else None)"

section \<open>Environment and oracle\<close>

text \<open>The environment variables the program reads; \<open>None\<close> is an unset variable.\<close>

record env =
  OPENAI_API_KEY :: "jsstring option"
  TELEGRAM_BOT_TOKEN :: "jsstring option"
  TELEGRAM_CHAT_ID :: "jsstring option"

text \<open>\<open>!process.env.X\<close>: unset or empty.\<close>

definition unset :: "jsstring option \<Rightarrow> bool" where
  "unset v = (case v of None \<Rightarrow> True | Some s \<Rightarrow> s = [])"

text \<open>
  What one call
  \<open>(await client.chat.completions.create(...)).choices[0].message.content\<close>
  yields: the content string, or an exception (the request is rejected, or the response
  has no such string).
\<close>

datatype oracle_reply = Threw jserror | Content jsstring

text \<open>\<open>'OPENAI_API_KEY'\<close> followed by U+0020 U+73AF U+5883 U+53D8 U+91CF U+672A U+8BBE
  U+7F6E ("environment variable not set").\<close>

definition msg_no_api_key :: jsstring where
  "msg_no_api_key = ascii ''OPENAI_API_KEY''
     @ [0x0020, 0x73AF, 0x5883, 0x53D8, 0x91CF, 0x672A, 0x8BBE, 0x7F6E]"

text \<open>\<open>initOpenAI\<close>: the client handle carries no data the model needs.\<close>

definition initOpenAI :: "env \<Rightarrow> jserror + unit" where
  "initOpenAI e = (if unset (OPENAI_API_KEY e) then Inl (Error msg_no_api_key) else Inr ())"

text \<open>\<open>String.prototype.trim\<close>: strips white space and line terminators at both ends.\<close>

definition isSpace :: "jschar \<Rightarrow> bool" where
  "isSpace c = (c \<in> {0x0009, 0x000A, 0x000B, 0x000C, 0x000D, 0x0020, 0x00A0, 0x1680,
                     0x2028, 0x2029, 0x202F, 0x205F, 0x3000, 0xFEFF}
               \<or> (0x2000 \<le> c \<and> c \<le> 0x200A))"

definition jsTrim :: "jsstring \<Rightarrow> jsstring" where
  "jsTrim s = rev (dropWhile isSpace (rev (dropWhile isSpace s)))"

text \<open>
  \<open>content.match(/\{[\s\S]*\}/)\<close>: the greedy match runs from the first opening brace
  to the last closing brace after it; no match when there is none.
\<close>

definition matchBraces :: "jsstring \<Rightarrow> jsstring option" where
  "matchBraces content =
     (let fromOpen = dropWhile (\<lambda>c. c \<noteq> 0x7B) content;
          m = rev (dropWhile (\<lambda>c. c \<noteq> 0x7D) (rev fromOpen))
      in if m = [] then None else Some m)"

section \<open>Impact scoring (src/processors/impactScorer.js)\<close>

text \<open>The string constants of the scorer, as UTF-16 code units:
  \<open>level_medium\<close> is U+4E2D U+7B49 U+5F71 U+54CD ("medium impact"),
  \<open>direction_neutral\<close> is U+4E2D U+6027 ("neutral"),
  \<open>reasoning_parse_failed\<close> is "AI scoring failed, default values used",
  \<open>reasoning_none\<close> is "no reasoning given" and
  \<open>prefix_score_error\<close> is "scoring error: ".\<close>

definition level_medium :: jsstring where
  "level_medium = [0x4E2D, 0x7B49, 0x5F71, 0x54CD]"

definition direction_neutral :: jsstring where
  "direction_neutral = [0x4E2D, 0x6027]"

definition reasoning_parse_failed :: jsstring where
  "reasoning_parse_failed = [0x0041, 0x0049, 0x0020, 0x8BC4, 0x5206, 0x5931, 0x8D25, 0xFF0C,
     0x4F7F, 0x7528, 0x9ED8, 0x8BA4, 0x503C]"

definition reasoning_none :: jsstring where
  "reasoning_none = [0x65E0, 0x7406, 0x7531, 0x8BF4, 0x660E]"

definition prefix_score_error :: jsstring where
  "prefix_score_error = [0x8BC4, 0x5206, 0x51FA, 0x9519, 0x003A, 0x0020]"

text \<open>The object assigned to \<open>result\<close> when the response cannot be parsed.\<close>

definition parseFailureResult :: "(jsstring \<times> json) list" where
  "parseFailureResult =
     [(ascii ''policyStrength'', JNum (Fin 10)),
      (ascii ''expectationGap'', JNum (Fin 10)),
      (ascii ''timeUrgency'', JNum (Fin 10)),
      (ascii ''cryptoRelevance'', JNum (Fin 10)),
      (ascii ''totalScore'', JNum (Fin 40)),
      (ascii ''level'', JStr level_medium),
      (ascii ''direction'', JStr direction_neutral),
      (ascii ''reasoning'', JStr reasoning_parse_failed)]"

text \<open>The object both \<open>catch\<close> blocks build from the caught error.\<close>

definition errorImpact :: "jserror \<Rightarrow> impact_score" where
  "errorImpact e =
     \<lparr>policyStrength = Fin 10, expectationGap = Fin 10, timeUrgency = Fin 10,
      cryptoRelevance = Fin 10, totalScore = Fin 40, level = JStr level_medium,
      direction = JStr direction_neutral,
      reasoning = JStr (prefix_score_error @ message e)\<rparr>"

text \<open>\<open>Math.max(0, Math.min(hi, x || 0))\<close> for a property \<open>x\<close> of the result.\<close>

definition clampScore :: "platform \<Rightarrow> rat \<Rightarrow> json option \<Rightarrow> jserror + jsnum" where
  "clampScore P hi x =
     (case toNumber P (orElse x (JNum (Fin 0))) of
        Inl e \<Rightarrow> Inl e
      | Inr n \<Rightarrow> Inr (mathMax (Fin 0) (mathMin (Fin hi) n)))"

text \<open>The object literal \<open>validated\<close>; its properties are evaluated in order and the
  first exception leaves the literal.\<close>

definition validated :: "platform \<Rightarrow> (jsstring \<times> json) list \<Rightarrow> jserror + impact_score" where
  "validated P result =
     (case clampScore P 25 (getProp result ''policyStrength'') of Inl e \<Rightarrow> Inl e | Inr ps \<Rightarrow>
      case clampScore P 25 (getProp result ''expectationGap'') of Inl e \<Rightarrow> Inl e | Inr eg \<Rightarrow>
      case clampScore P 25 (getProp result ''timeUrgency'') of Inl e \<Rightarrow> Inl e | Inr tu \<Rightarrow>
      case clampScore P 25 (getProp result ''cryptoRelevance'') of Inl e \<Rightarrow> Inl e | Inr cr \<Rightarrow>
      case clampScore P 100 (getProp result ''totalScore'') of Inl e \<Rightarrow> Inl e | Inr ts \<Rightarrow>
        Inr \<lparr>policyStrength = ps, expectationGap = eg, timeUrgency = tu,
             cryptoRelevance = cr, totalScore = ts,
             level = orElse (getProp result ''level'') (JStr level_medium),
             direction = orElse (getProp result ''direction'') (JStr direction_neutral),
             reasoning = orElse (getProp result ''reasoning'') (JStr reasoning_none)\<rparr>)"

text \<open>The inner \<open>try\<close>/\<open>catch\<close>: the parsed object, or the default one.\<close>

definition parseImpact :: "platform \<Rightarrow> jsstring \<Rightarrow> (jsstring \<times> json) list" where
  "parseImpact P content =
     (case matchBraces content of
        None \<Rightarrow> parseFailureResult
      | Some m \<Rightarrow> (case jsonParse P m of None \<Rightarrow> parseFailureResult | Some obj \<Rightarrow> obj))"

text \<open>
  \<open>scoreImpact\<close>.  The item enters only through the prompt, that is through the
  oracle's reply, which is the argument here.  The body of the outer \<open>try\<close> comes
  first; the function itself catches whatever the body throws.
\<close>

definition scoreImpact_try :: "platform \<Rightarrow> env \<Rightarrow> oracle_reply \<Rightarrow> jserror + impact_score" where
  "scoreImpact_try P e reply =
     (case initOpenAI e of
        Inl err \<Rightarrow> Inl err
      | Inr client \<Rightarrow>
          (case reply of
             Threw err \<Rightarrow> Inl err
           | Content c \<Rightarrow> validated P (parseImpact P (jsTrim c))))"

definition scoreImpact :: "platform \<Rightarrow> env \<Rightarrow> oracle_reply \<Rightarrow> jserror + impact_score" where
  "scoreImpact P e reply =
     (case scoreImpact_try P e reply of
        Inl err \<Rightarrow> Inr (errorImpact err)
      | Inr v \<Rightarrow> Inr v)"

text \<open>A platform on which nothing parses, and an environment with every variable set;
  used to run the stages on sample inputs.\<close>

definition example_platform :: platform where
  "example_platform =
     \<lparr>jsonParse = (\<lambda>s. None), stringToNumber = (\<lambda>s. NaN),
      arrayToString = (\<lambda>xs. Inr []), matchScore = (\<lambda>s. None)\<rparr>"

definition example_env :: env where
  "example_env =
     \<lparr>OPENAI_API_KEY = Some (ascii ''k''), TELEGRAM_BOT_TOKEN = Some (ascii ''t''),
      TELEGRAM_CHAT_ID = Some (ascii ''c'')\<rparr>"

text \<open>
  The body of the scoring loop for one item.  Inside the \<open>try\<close> the impact is stored
  and then logged by a template literal that converts \<open>impact.totalScore\<close> (a number),
  \<open>impact.level\<close> and \<open>impact.direction\<close> to strings, in this order; when a conversion
  throws, the \<open>catch\<close> stores the default built from the error, as it does when
  \<open>scoreImpact\<close> throws.
\<close>

definition scoreItem ::
  "platform \<Rightarrow> env \<Rightarrow> oracle_reply \<Rightarrow> 'a news_item_scheme \<Rightarrow> 'a news_item_scheme" where
  "scoreItem P e reply item =
     item\<lparr>impact := Some (case scoreImpact P e reply of
                             Inl err \<Rightarrow> errorImpact err
                           | Inr imp \<Rightarrow>
                               (case stringifyError P (level imp) of
                                  Some err \<Rightarrow> errorImpact err
                                | None \<Rightarrow>
                                    (case stringifyError P (direction imp) of
                                       Some err \<Rightarrow> errorImpact err
                                     | None \<Rightarrow> imp)))\<rparr>"

text \<open>The loop \<open>for (let i = 0; i < news.length; i++)\<close>; the calls are sequential and
  \<open>replyTo i\<close> is the reply to the call made for \<open>news[i]\<close>.\<close>

fun scoreLoop ::
  "platform \<Rightarrow> env \<Rightarrow> (nat \<Rightarrow> oracle_reply) \<Rightarrow> nat \<Rightarrow> 'a news_item_scheme list
     \<Rightarrow> 'a news_item_scheme list" where
  "scoreLoop P e replyTo i [] = []"
| "scoreLoop P e replyTo i (item # news) =
     scoreItem P e (replyTo i) item # scoreLoop P e replyTo (Suc i) news"

text \<open>
  Subtraction, as far as its sign goes: the difference of two finite doubles has the
  sign of the exact difference, and is zero only when they are equal.
\<close>

fun numSub :: "jsnum \<Rightarrow> jsnum \<Rightarrow> jsnum" where
  "numSub NaN b = NaN"
| "numSub a NaN = NaN"
| "numSub PosInf PosInf = NaN"
| "numSub NegInf NegInf = NaN"
| "numSub PosInf b = PosInf"
| "numSub NegInf b = NegInf"
| "numSub (Fin a) PosInf = NegInf"
| "numSub (Fin a) NegInf = PosInf"
| "numSub (Fin a) (Fin b) = Fin (a - b)"

text \<open>\<open>x.impact?.totalScore || 0\<close>.\<close>

definition totalOrZero :: "'a news_item_scheme \<Rightarrow> jsnum" where
  "totalOrZero x =
     (case impact x of
        None \<Rightarrow> Fin 0
      | Some imp \<Rightarrow> if truthy (JNum (totalScore imp)) then totalScore imp else Fin 0)"

text \<open>The comparator \<open>(a, b) => (b.impact?.totalScore || 0) - (a.impact?.totalScore || 0)\<close>.\<close>

definition compareImpact :: "'a news_item_scheme \<Rightarrow> 'a news_item_scheme \<Rightarrow> jsnum" where
  "compareImpact a b = numSub (totalOrZero b) (totalOrZero a)"

text \<open>
  \<open>Array.prototype.sort(cmp)\<close>.  The language specifies it as a stable sort: for a
  consistent comparator the result is the sorted permutation in which elements that
  compare equal keep their order.  That permutation is computed here by insertion from
  the right: an element moves behind exactly the elements \<open>y\<close> with \<open>cmp(x, y) > 0\<close>
  that precede the first one without.  A comparator result of \<open>NaN\<close> counts as 0.
\<close>

fun isPositive :: "jsnum \<Rightarrow> bool" where
  "isPositive (Fin q) = (0 < q)"
| "isPositive PosInf = True"
| "isPositive NaN = False"
| "isPositive NegInf = False"

fun insertBy :: "('a \<Rightarrow> 'a \<Rightarrow> jsnum) \<Rightarrow> 'a \<Rightarrow> 'a list \<Rightarrow> 'a list" where
  "insertBy cmp x [] = [x]"
| "insertBy cmp x (y # ys) =
     (if isPositive (cmp x y) then y # insertBy cmp x ys else x # y # ys)"

definition arraySort :: "('a \<Rightarrow> 'a \<Rightarrow> jsnum) \<Rightarrow> 'a list \<Rightarrow> 'a list" where
  "arraySort cmp xs = foldr (insertBy cmp) xs []"

definition scoreAllNewsImpact ::
  "platform \<Rightarrow> env \<Rightarrow> (nat \<Rightarrow> oracle_reply) \<Rightarrow> 'a news_item_scheme list
     \<Rightarrow> 'a news_item_scheme list" where
  "scoreAllNewsImpact P e replyTo news =
     (if news = [] then []
      else arraySort compareImpact (scoreLoop P e replyTo 0 news))"

text \<open>The total an item is ranked by, as a rational: its \<open>impact.totalScore\<close>, and 0
  when that is missing or \<open>NaN\<close>, as in the comparator.\<close>

definition rankTotal :: "'a news_item_scheme \<Rightarrow> rat" where
  "rankTotal x =
     (case impact x of
        None \<Rightarrow> 0
      | Some imp \<Rightarrow> (case totalScore imp of Fin q \<Rightarrow> q | _ \<Rightarrow> 0))"

text \<open>Totals as the scorer produces them: \<open>NaN\<close> or finite.\<close>

definition plainTotal :: "'a news_item_scheme \<Rightarrow> bool" where
  "plainTotal x =
     (case impact x of
        None \<Rightarrow> True
      | Some imp \<Rightarrow> totalScore imp = NaN \<or> (\<exists>q. totalScore imp = Fin q))"

text \<open>
  A sample run of the scorer: the texts \<open>{"totalScore":90}\<close> and
  \<open>{"totalScore":10}\<close>, a platform that parses exactly these two, and an oracle
  whose call fails for item 0 and answers the first text for item 1, a text without
  JSON for item 2 and the second text for item 3.
\<close>

definition text_total_90 :: jsstring where
  "text_total_90 = ascii ''{'' @ [0x22] @ ascii ''totalScore'' @ [0x22] @ ascii '':90}''"

definition text_total_10 :: jsstring where
  "text_total_10 = ascii ''{'' @ [0x22] @ ascii ''totalScore'' @ [0x22] @ ascii '':10}''"

definition totals_platform :: platform where
  "totals_platform =
     \<lparr>jsonParse = (\<lambda>s. if s = text_total_90 then Some [(ascii ''totalScore'', JNum (Fin 90))]
                        else if s = text_total_10 then Some [(ascii ''totalScore'', JNum (Fin 10))]
                        else None),
      stringToNumber = (\<lambda>s. NaN),
      arrayToString = (\<lambda>xs. Inr []), matchScore = (\<lambda>s. None)\<rparr>"

definition repliesOf :: "oracle_reply list \<Rightarrow> nat \<Rightarrow> oracle_reply" where
  "repliesOf rs i = (if i < length rs then rs ! i else Threw (Error []))"

definition totals_oracle :: "nat \<Rightarrow> oracle_reply" where
  "totals_oracle =
     repliesOf [Threw (Error (ascii ''timeout'')), Content text_total_90,
                Content (ascii ''n/a''), Content text_total_10]"

section \<open>Relevance filter (src/filters/aiFilter.js)\<close>

text \<open>The object \<open>judgeRelevance\<close> returns.  On the path through the parsed JSON the
  three properties are whatever values the oracle's object had.\<close>

record verdict =
  score :: json
  reason :: json
  relevant :: json

text \<open>The string constants of the filter, as UTF-16 code units:
  \<open>reason_format_error\<close> is "AI returned a malformed answer, default score used",
  \<open>reason_missing\<close> is "no reason" and \<open>prefix_judge_error\<close> is "AI judgement
  error: ".\<close>

definition reason_format_error :: jsstring where
  "reason_format_error = [0x0041, 0x0049, 0x0020, 0x8FD4, 0x56DE, 0x683C, 0x5F0F, 0x5F02,
     0x5E38, 0xFF0C, 0x4F7F, 0x7528, 0x9ED8, 0x8BA4, 0x8BC4, 0x5206]"

definition reason_missing :: jsstring where
  "reason_missing = [0x65E0, 0x7406, 0x7531]"

definition prefix_judge_error :: jsstring where
  "prefix_judge_error = [0x0041, 0x0049, 0x0020, 0x5224, 0x65AD, 0x51FA, 0x9519, 0x003A, 0x0020]"

text \<open>\<open>x >= 6\<close> for a property \<open>x\<close> that may be missing: \<open>undefined\<close> converts to
  \<open>NaN\<close>, and the conversion of an object may throw.\<close>

definition atLeast6 :: "platform \<Rightarrow> json option \<Rightarrow> jserror + bool" where
  "atLeast6 P x =
     (case x of
        None \<Rightarrow> Inr False
      | Some v \<Rightarrow> (case toNumber P v of Inl e \<Rightarrow> Inl e | Inr n \<Rightarrow> Inr (numLe (Fin 6) n)))"

text \<open>The object the inner \<open>catch\<close> builds: the score found by the regular expression,
  or 5.\<close>

definition formatFallback :: "platform \<Rightarrow> jsstring \<Rightarrow> (jsstring \<times> json) list" where
  "formatFallback P content =
     (let s = (case matchScore P content of Some n \<Rightarrow> n | None \<Rightarrow> Fin 5)
      in [(ascii ''score'', JNum s),
          (ascii ''reason'', JStr reason_format_error),
          (ascii ''relevant'', JBool (numLe (Fin 6) s))])"

text \<open>The inner \<open>try\<close>/\<open>catch\<close>.\<close>

definition parseVerdict :: "platform \<Rightarrow> jsstring \<Rightarrow> (jsstring \<times> json) list" where
  "parseVerdict P content =
     (case matchBraces content of
        None \<Rightarrow> formatFallback P content
      | Some m \<Rightarrow> (case jsonParse P m of None \<Rightarrow> formatFallback P content | Some obj \<Rightarrow> obj))"

text \<open>The body of the outer \<open>try\<close> of \<open>judgeRelevance\<close>, then the function with its
  \<open>catch\<close>.  As for \<open>scoreImpact\<close>, the item enters through the oracle's reply.\<close>

definition judgeRelevance_try :: "platform \<Rightarrow> env \<Rightarrow> oracle_reply \<Rightarrow> jserror + verdict" where
  "judgeRelevance_try P e reply =
     (case initOpenAI e of
        Inl err \<Rightarrow> Inl err
      | Inr client \<Rightarrow>
          (case reply of
             Threw err \<Rightarrow> Inl err
           | Content c \<Rightarrow>
               let result = parseVerdict P (jsTrim c)
               in (case (case getProp result ''relevant'' of
                           Some v \<Rightarrow> Inr v
                         | None \<Rightarrow> (case atLeast6 P (getProp result ''score'') of
                                      Inl err \<Rightarrow> Inl err
                                    | Inr b \<Rightarrow> Inr (JBool b))) of
                     Inl err \<Rightarrow> Inl err
                   | Inr rel \<Rightarrow>
                       Inr \<lparr>score = orElse (getProp result ''score'') (JNum (Fin 0)),
                            reason = orElse (getProp result ''reason'') (JStr reason_missing),
                            relevant = rel\<rparr>)))"

definition judgeRelevance :: "platform \<Rightarrow> env \<Rightarrow> oracle_reply \<Rightarrow> jserror + verdict" where
  "judgeRelevance P e reply =
     (case judgeRelevance_try P e reply of
        Inl err \<Rightarrow>
          Inr \<lparr>score = JNum (Fin 5), reason = JStr (prefix_judge_error @ message err),
               relevant = JBool True\<rparr>
      | Inr v \<Rightarrow> Inr v)"

text \<open>An entry of the array \<open>Promise.allSettled\<close> resolves to.\<close>

datatype 'a settled = Fulfilled 'a | Rejected jserror

text \<open>The async callback \<open>async (item) => { ...; return { item, judgment } }\<close>, settled.\<close>

definition judgeItem ::
  "platform \<Rightarrow> env \<Rightarrow> oracle_reply \<Rightarrow> 'a news_item_scheme
     \<Rightarrow> ('a news_item_scheme \<times> verdict) settled" where
  "judgeItem P e reply item =
     (case judgeRelevance P e reply of
        Inr judgment \<Rightarrow> Fulfilled (item, judgment)
      | Inl err \<Rightarrow> Rejected err)"

text \<open>
  One turn of \<open>for (const result of results)\<close>: what the turn pushes on \<open>filtered\<close>,
  or the exception it throws.  On a fulfilled result the item is annotated and then,
  kept or not, logged by a template literal that converts \<open>judgment.score\<close> to a
  string; the conversion is outside any \<open>try\<close>, so its exception leaves \<open>filterByAI\<close>.
  \<open>batchItem\<close> is \<open>batch[results.indexOf(result)]\<close>, the batch's item at the result's
  own position (a settled result has no \<open>item\<close> property).
\<close>

definition pushResult ::
  "platform \<Rightarrow> ('a news_item_scheme \<times> verdict) settled \<Rightarrow> 'a news_item_scheme
     \<Rightarrow> jserror + 'a news_item_scheme list" where
  "pushResult P result batchItem =
     (case result of
        Fulfilled (item, judgment) \<Rightarrow>
          (let item' = item\<lparr>aiScore := Some (score judgment), aiReason := Some (reason judgment)\<rparr>
           in case stringifyError P (score judgment) of
                Some err \<Rightarrow> Inl err
              | None \<Rightarrow> Inr (if truthy (relevant judgment) then [item'] else []))
      | Rejected err \<Rightarrow> Inr [batchItem])"

text \<open>One batch: the calls are made for \<open>batch[0..]\<close>, which are \<open>news[i..]\<close>, and the
  results are consumed in order; the first exception ends the run of the filter.\<close>

fun processBatch ::
  "platform \<Rightarrow> env \<Rightarrow> (nat \<Rightarrow> oracle_reply) \<Rightarrow> nat \<Rightarrow> 'a news_item_scheme list
     \<Rightarrow> jserror + 'a news_item_scheme list" where
  "processBatch P e replyTo i [] = Inr []"
| "processBatch P e replyTo i (item # batch) =
     (case pushResult P (judgeItem P e (replyTo i) item) item of
        Inl err \<Rightarrow> Inl err
      | Inr pushed \<Rightarrow>
          (case processBatch P e replyTo (Suc i) batch of
             Inl err \<Rightarrow> Inl err
           | Inr rest \<Rightarrow> Inr (pushed @ rest)))"

text \<open>The loop \<open>for (let i = 0; i < news.length; i += batchSize)\<close> with
  \<open>batchSize = 5\<close>.\<close>

function filterBatches ::
  "platform \<Rightarrow> env \<Rightarrow> (nat \<Rightarrow> oracle_reply) \<Rightarrow> nat \<Rightarrow> 'a news_item_scheme list
     \<Rightarrow> jserror + 'a news_item_scheme list" where
  "filterBatches P e replyTo i news =
     (if i < length news
      then (case processBatch P e replyTo i (take 5 (drop i news)) of
              Inl err \<Rightarrow> Inl err
            | Inr pushed \<Rightarrow>
                (case filterBatches P e replyTo (i + 5) news of
                   Inl err \<Rightarrow> Inl err
                 | Inr rest \<Rightarrow> Inr (pushed @ rest)))
      else Inr [])"
  by pat_completeness auto
termination
  by (relation "measure (\<lambda>(P, e, replyTo, i, news). length news - i)") auto

declare filterBatches.simps [simp del]

definition filterByAI ::
  "platform \<Rightarrow> env \<Rightarrow> (nat \<Rightarrow> oracle_reply) \<Rightarrow> 'a news_item_scheme list
     \<Rightarrow> jserror + 'a news_item_scheme list" where
  "filterByAI P e replyTo news =
     (if news = [] then Inr [] else filterBatches P e replyTo 0 news)"

text \<open>
  Sample runs of the filter.  \<open>text_relevant\<close> is
  \<open>{"score":8,"reason":"ok","relevant":true}\<close> and \<open>text_strings\<close> is
  \<open>{"score":"8","relevant":"yes"}\<close>; \<open>verdict_platform\<close> parses exactly these two.
  \<open>example_batch\<close> is one batch of five items and \<open>batch_replies\<close> answers them:
  relevant, a failed call, a text without JSON, relevant, relevant.
  \<open>text_unprintable\<close> is \<open>{"score":{"toString":1},"relevant":true}\<close>, parsed by
  \<open>unprintable_platform\<close>, and \<open>abort_replies\<close> answers a batch of two items with a
  failed call and that text.
\<close>

definition text_relevant :: jsstring where
  "text_relevant = ascii ''{'' @ [0x22] @ ascii ''score'' @ [0x22] @ ascii '':8,''
     @ [0x22] @ ascii ''reason'' @ [0x22] @ ascii '':'' @ [0x22] @ ascii ''ok'' @ [0x22]
     @ ascii '','' @ [0x22] @ ascii ''relevant'' @ [0x22] @ ascii '':true}''"

definition text_strings :: jsstring where
  "text_strings = ascii ''{'' @ [0x22] @ ascii ''score'' @ [0x22] @ ascii '':''
     @ [0x22] @ ascii ''8'' @ [0x22] @ ascii '','' @ [0x22] @ ascii ''relevant'' @ [0x22]
     @ ascii '':'' @ [0x22] @ ascii ''yes'' @ [0x22] @ ascii ''}''"

definition verdict_platform :: platform where
  "verdict_platform =
     \<lparr>jsonParse = (\<lambda>s. if s = text_relevant
                          then Some [(ascii ''score'', JNum (Fin 8)),
                                     (ascii ''reason'', JStr (ascii ''ok'')),
                                     (ascii ''relevant'', JBool True)]
                        else if s = text_strings
                          then Some [(ascii ''score'', JStr (ascii ''8'')),
                                     (ascii ''relevant'', JStr (ascii ''yes''))]
                        else None),
      stringToNumber = (\<lambda>s. NaN),
      arrayToString = (\<lambda>xs. Inr []), matchScore = (\<lambda>s. None)\<rparr>"

definition text_unprintable :: jsstring where
  "text_unprintable = ascii ''{'' @ [0x22] @ ascii ''score'' @ [0x22] @ ascii '':{''
     @ [0x22] @ ascii ''toString'' @ [0x22] @ ascii '':1},'' @ [0x22] @ ascii ''relevant''
     @ [0x22] @ ascii '':true}''"

definition unprintable_platform :: platform where
  "unprintable_platform =
     \<lparr>jsonParse = (\<lambda>s. if s = text_unprintable
                          then Some [(ascii ''score'', JObj [(ascii ''toString'', JNum (Fin 1))]),
                                     (ascii ''relevant'', JBool True)]
                        else None),
      stringToNumber = (\<lambda>s. NaN),
      arrayToString = (\<lambda>xs. Inr []), matchScore = (\<lambda>s. None)\<rparr>"

definition abort_replies :: "nat \<Rightarrow> oracle_reply" where
  "abort_replies = repliesOf [Threw (Error (ascii ''timeout'')), Content text_unprintable]"

definition example_batch :: "news_item list" where
  "example_batch = example_news @
     [\<lparr>title = ascii ''Fed and GDP'', description = [], url = ascii ''u4'',
        keywordMatches = None, aiScore = None, aiReason = None, impact = None\<rparr>]"

definition batch_replies :: "nat \<Rightarrow> oracle_reply" where
  "batch_replies =
     repliesOf [Content text_relevant, Threw (Error (ascii ''timeout'')),
                Content (ascii ''n/a''), Content text_relevant, Content text_relevant]"

section \<open>Deduplication ledger (src/utils/deduplicator.js)\<close>

text \<open>
  A record of the ledger.  \<open>sentAt\<close> is stored as an ISO-8601 string with
  millisecond precision; the model keeps the instant it denotes, in milliseconds since
  the epoch, that is the value of \<open>new Date(record.sentAt).getTime()\<close>, and \<open>None\<close> when
  that value is \<open>NaN\<close> (a missing or malformed date).
\<close>

record dedup_record =
  r_url :: jsstring
  r_title :: jsstring
  sentAt :: "int option"

text \<open>
  The backing file \<open>data/sent_news.json\<close>: absent, present with a content on which the
  body of \<open>loadSentNews\<close> throws (not JSON, or \<open>records\<close> not an array of objects), or a
  document with its \<open>records\<close> property (\<open>None\<close> when missing or falsy) and its
  \<open>lastUpdated\<close> instant.
\<close>

datatype ledger_file =
    Absent
  | Unreadable
  | Document "dedup_record list option" "int option"

definition MAX_AGE_DAYS :: int where
  "MAX_AGE_DAYS = 30"

definition maxAge :: int where
  "maxAge = MAX_AGE_DAYS * 24 * 60 * 60 * 1000"

text \<open>The filter callback \<open>record => (now - new Date(record.sentAt).getTime()) < maxAge\<close>;
  a comparison with \<open>NaN\<close> is false.\<close>

definition notExpired :: "int \<Rightarrow> dedup_record \<Rightarrow> bool" where
  "notExpired now r = (case sentAt r of None \<Rightarrow> False | Some recordTime \<Rightarrow> now - recordTime < maxAge)"

text \<open>The object \<open>{ urls, records }\<close> that \<open>loadSentNews\<close> returns.\<close>

record sent_news =
  urls :: "jsstring set"
  records :: "dedup_record list"

text \<open>
  \<open>loadSentNews\<close> at the instant \<open>now\<close>, with the file as it is found and as it is left.
  \<open>disk\<close> is \<open>None\<close> when the file system accepts writes and the error it throws
  otherwise; every exception ends in the \<open>catch\<close>, which returns the empty ledger.
\<close>

definition loadSentNews :: "int \<Rightarrow> jserror option \<Rightarrow> ledger_file \<Rightarrow> sent_news \<times> ledger_file" where
  "loadSentNews now disk file =
     (case file of
        Absent \<Rightarrow>
          (\<lparr>urls = {}, records = []\<rparr>,
           if disk = None then Document (Some []) None else Absent)
      | Unreadable \<Rightarrow> (\<lparr>urls = {}, records = []\<rparr>, Unreadable)
      | Document recs updated \<Rightarrow>
          (let rs = (case recs of None \<Rightarrow> [] | Some l \<Rightarrow> l);
               validRecords = filter (notExpired now) rs
           in (\<lparr>urls = set (map r_url validRecords), records = validRecords\<rparr>, file)))"

definition isNewsSent :: "jsstring \<Rightarrow> jsstring set \<Rightarrow> bool" where
  "isNewsSent u sentUrls = (u \<in> sentUrls)"

definition filterUnsentNews ::
  "'a news_item_scheme list \<Rightarrow> jsstring set \<Rightarrow> 'a news_item_scheme list" where
  "filterUnsentNews news sentUrls = filter (\<lambda>item. \<not> isNewsSent (url item) sentUrls) news"

text \<open>
  \<open>saveSentNews\<close>.  It reads the clock once per item (\<open>new Date()\<close> in the \<open>map\<close>
  callback), then for \<open>now\<close>, then for \<open>lastUpdated\<close>: \<open>clock k\<close> is the \<open>k\<close>-th reading
  of the call.  A failed write is logged and thrown again.
\<close>

definition newRecords :: "(nat \<Rightarrow> int) \<Rightarrow> 'a news_item_scheme list \<Rightarrow> dedup_record list" where
  "newRecords clock news =
     map (\<lambda>(k, item). \<lparr>r_url = url item, r_title = title item, sentAt = Some (clock k)\<rparr>)
       (enumerate 0 news)"

definition saveSentNews ::
  "(nat \<Rightarrow> int) \<Rightarrow> jserror option \<Rightarrow> 'a news_item_scheme list \<Rightarrow> dedup_record list
     \<Rightarrow> ledger_file \<Rightarrow> jserror + ledger_file" where
  "saveSentNews clock disk news existingRecords file =
     (let allRecords = existingRecords @ newRecords clock news;
          now = clock (length news);
          validRecords = filter (notExpired now) allRecords
      in case disk of
           Some err \<Rightarrow> Inl err
         | None \<Rightarrow> Inr (Document (Some validRecords) (Some (clock (Suc (length news))))))"

text \<open>A sample ledger: one record sent at instant 0 and one sent at instant
  2000000000, read around instant 2600000000 (30 days are 2592000000 ms).\<close>

definition old_record :: dedup_record where
  "old_record = \<lparr>r_url = ascii ''old'', r_title = ascii ''Old'', sentAt = Some 0\<rparr>"

definition recent_record :: dedup_record where
  "recent_record = \<lparr>r_url = ascii ''recent'', r_title = ascii ''Recent'', sentAt = Some 2000000000\<rparr>"

definition example_ledger :: ledger_file where
  "example_ledger = Document (Some [old_record, recent_record]) None"

definition example_clock :: "nat \<Rightarrow> int" where
  "example_clock k = 2600000100 + int k"

section \<open>Delivery (src/telegram/sender.js)\<close>

text \<open>
  The Telegram side of a run: how many times \<open>bot.sendMessage\<close> has been called, and
  the messages the channel accepted, in order.  The channel itself is the parameter
  \<open>net\<close>: \<open>net k\<close> is \<open>None\<close> when the \<open>k\<close>-th call of the run is accepted, and the
  error it throws otherwise.  The waits between calls are not modelled.
\<close>

record telegram =
  attempts :: nat
  delivered :: "jsstring list"

text \<open>\<open>'TELEGRAM_BOT_TOKEN'\<close> and \<open>'TELEGRAM_CHAT_ID'\<close>, each followed by the same
  " environment variable not set" as \<open>msg_no_api_key\<close>.\<close>

definition msg_no_bot_token :: jsstring where
  "msg_no_bot_token = ascii ''TELEGRAM_BOT_TOKEN''
     @ [0x0020, 0x73AF, 0x5883, 0x53D8, 0x91CF, 0x672A, 0x8BBE, 0x7F6E]"

definition msg_no_chat_id :: jsstring where
  "msg_no_chat_id = ascii ''TELEGRAM_CHAT_ID''
     @ [0x0020, 0x73AF, 0x5883, 0x53D8, 0x91CF, 0x672A, 0x8BBE, 0x7F6E]"

definition initBot :: "env \<Rightarrow> jserror + unit" where
  "initBot e =
     (if unset (TELEGRAM_BOT_TOKEN e) then Inl (Error msg_no_bot_token)
      else if unset (TELEGRAM_CHAT_ID e) then Inl (Error msg_no_chat_id)
      else Inr ())"

text \<open>
  The loop \<open>for (let i = 0; i < retries; i++)\<close> of \<open>sendMessageWithRetry\<close>, counted by
  the tries that remain, \<open>retries - i\<close>: an accepted call returns \<open>true\<close>; a refused one
  is tried again while \<open>i < retries - 1\<close>, and thrown on the last try.  With no try left
  the loop falls through to \<open>return false\<close>.
\<close>

fun sendAttempts ::
  "(nat \<Rightarrow> jserror option) \<Rightarrow> jsstring \<Rightarrow> nat \<Rightarrow> telegram \<Rightarrow> (jserror + bool) \<times> telegram" where
  "sendAttempts net msg 0 st = (Inr False, st)"
| "sendAttempts net msg (Suc remaining) st =
     (case net (attempts st) of
        None \<Rightarrow> (Inr True, st\<lparr>attempts := attempts st + 1, delivered := delivered st @ [msg]\<rparr>)
      | Some err \<Rightarrow>
          (let st' = st\<lparr>attempts := attempts st + 1\<rparr>
           in if 0 < remaining then sendAttempts net msg remaining st' else (Inl err, st')))"

text \<open>\<open>sendMessageWithRetry(message)\<close> with its default \<open>retries = 3\<close>, the only way it is
  called.\<close>

definition sendMessageWithRetry ::
  "env \<Rightarrow> (nat \<Rightarrow> jserror option) \<Rightarrow> jsstring \<Rightarrow> telegram \<Rightarrow> (jserror + bool) \<times> telegram" where
  "sendMessageWithRetry e net msg st =
     (case initBot e of
        Inl err \<Rightarrow> (Inl err, st)
      | Inr theBot \<Rightarrow> sendAttempts net msg 3 st)"

text \<open>The loop \<open>for (const msg of messages) { await sendMessageWithRetry(msg); ... }\<close>,
  which all the senders share: the first exception leaves the loop.\<close>

fun sendEach ::
  "env \<Rightarrow> (nat \<Rightarrow> jserror option) \<Rightarrow> jsstring list \<Rightarrow> telegram \<Rightarrow> (jserror + unit) \<times> telegram" where
  "sendEach e net [] st = (Inr (), st)"
| "sendEach e net (msg # messages) st =
     (case sendMessageWithRetry e net msg st of
        (Inl err, st') \<Rightarrow> (Inl err, st')
      | (Inr ok, st') \<Rightarrow> sendEach e net messages st')"

text \<open>
  \<open>splitMessage(text)\<close> with the default limit.  With a positive limit the call always
  returns (lemma \<open>splitMessage_default_returns\<close>), so the chunks are read off the
  \<open>Some\<close>.
\<close>

definition splitMessageDefault :: "jsstring \<Rightarrow> jsstring list" where
  "splitMessageDefault text =
     (case splitMessage text TELEGRAM_MAX_MESSAGE_LENGTH of Some messages \<Rightarrow> messages | None \<Rightarrow> [])"

text \<open>\<open>Array.prototype.join(separator)\<close> on strings.\<close>

fun joinWith :: "jsstring \<Rightarrow> jsstring list \<Rightarrow> jsstring" where
  "joinWith sep [] = []"
| "joinWith sep [x] = x"
| "joinWith sep (x # y # ys) = x @ sep @ joinWith sep (y # ys)"

text \<open>The decimal digits of a natural number, as template literals print it.\<close>

function decimal :: "nat \<Rightarrow> jsstring" where
  "decimal n = (if n < 10 then [of_nat (48 + n)] else decimal (n div 10) @ [of_nat (48 + n mod 10)])"
  by pat_completeness auto
termination
  by (relation "measure (\<lambda>n. n)") auto

declare decimal.simps [simp del]

text \<open>The separator is two newlines, thirty U+2500, two newlines.  The header of the
  \<open>i\<close>-th of \<open>n\<close> summaries is U+1F4CA, " ", U+4ECA U+65E5 U+65B0 U+95FB ("today's
  news"), " (", \<open>i\<close>, "/", \<open>n\<close>, ")" and two newlines.\<close>

definition separator :: jsstring where
  "separator = [nl, nl] @ replicate 30 0x2500 @ [nl, nl]"

definition header :: "nat \<Rightarrow> nat \<Rightarrow> jsstring" where
  "header i n = [0xD83D, 0xDCCA, 0x0020, 0x4ECA, 0x65E5, 0x65B0, 0x95FB, 0x0020, 0x0028]
     @ decimal i @ ascii ''/'' @ decimal n @ ascii '')'' @ [nl, nl]"

text \<open>
  The \<open>else\<close> branch of \<open>sendNewsSummaries\<close>, one message per summary: the loop over
  \<open>summaries[i..]\<close> with the running \<open>successCount\<close>.  A summary whose sending throws
  is logged and skipped.
\<close>

fun sendSeparately ::
  "env \<Rightarrow> (nat \<Rightarrow> jserror option) \<Rightarrow> nat \<Rightarrow> nat \<Rightarrow> jsstring list \<Rightarrow> nat \<Rightarrow> telegram
     \<Rightarrow> nat \<times> telegram" where
  "sendSeparately e net n i [] successCount st = (successCount, st)"
| "sendSeparately e net n i (summary # rest) successCount st =
     (let fullMessage = header (i + 1) n @ summary;
          messages = splitMessageDefault fullMessage
      in case sendEach e net messages st of
           (Inr done, st') \<Rightarrow> sendSeparately e net n (i + 1) rest (successCount + 1) st'
         | (Inl err, st') \<Rightarrow> sendSeparately e net n (i + 1) rest successCount st')"

definition sendNewsSummaries ::
  "env \<Rightarrow> (nat \<Rightarrow> jserror option) \<Rightarrow> jsstring list \<Rightarrow> telegram \<Rightarrow> (jserror + nat) \<times> telegram" where
  "sendNewsSummaries e net summaries st =
     (if summaries = [] then (Inr 0, st)
      else case initBot e of
        Inl err \<Rightarrow> (Inl err, st)
      | Inr theBot \<Rightarrow>
          if length summaries = 1
          then (case sendEach e net (splitMessageDefault (hd summaries)) st of
                  (Inl err, st') \<Rightarrow> (Inl err, st')
                | (Inr done, st') \<Rightarrow> (Inr 1, st'))
          else
            let combined = joinWith separator summaries
            in if length combined \<le> TELEGRAM_MAX_MESSAGE_LENGTH
               then (case sendEach e net (splitMessageDefault combined) st of
                       (Inl err, st') \<Rightarrow> (Inl err, st')
                     | (Inr done, st') \<Rightarrow> (Inr (length summaries), st'))
               else (case sendSeparately e net (length summaries) 0 summaries 0 st of
                       (successCount, st') \<Rightarrow> (Inr successCount, st')))"

definition sendSimpleMessage ::
  "env \<Rightarrow> (nat \<Rightarrow> jserror option) \<Rightarrow> jsstring \<Rightarrow> telegram \<Rightarrow> bool \<times> telegram" where
  "sendSimpleMessage e net msg st =
     (case sendEach e net (splitMessageDefault msg) st of
        (Inl err, st') \<Rightarrow> (False, st')
      | (Inr done, st') \<Rightarrow> (True, st'))"

section \<open>Orchestration (src/index.js)\<close>

text \<open>The two notices of the steps modelled: "no new news today (all news already
  sent)" after a check mark, and "news collection task failed:" after a cross mark,
  followed by a newline and the error's message.\<close>

definition msg_all_sent :: jsstring where
  "msg_all_sent = [0x2705, 0x0020, 0x4ECA, 0x65E5, 0x65E0, 0x65B0, 0x65B0, 0x95FB, 0xFF08,
     0x6240, 0x6709, 0x65B0, 0x95FB, 0x5DF2, 0x53D1, 0x9001, 0x8FC7, 0xFF09]"

definition prefix_task_failed :: jsstring where
  "prefix_task_failed = [0x274C, 0x0020, 0x65B0, 0x95FB, 0x6536, 0x96C6, 0x4EFB, 0x52A1,
     0x5931, 0x8D25, 0x003A, 0x000A]"

text \<open>How a run ends: the exit status, the ledger file and the Telegram side.\<close>

record run_result =
  exitCode :: nat
  ledger :: ledger_file
  channel :: telegram

text \<open>The \<open>catch\<close> of \<open>main\<close>: one notice, sent if it can be, and exit status 1.\<close>

definition mainCatch ::
  "env \<Rightarrow> (nat \<Rightarrow> jserror option) \<Rightarrow> jserror \<Rightarrow> ledger_file \<Rightarrow> telegram \<Rightarrow> run_result" where
  "mainCatch e net err file st =
     (case sendSimpleMessage e net (prefix_task_failed @ message err) st of
        (ok, st') \<Rightarrow> \<lparr>exitCode = 1, ledger = file, channel = st'\<rparr>)"

text \<open>
  \<open>main\<close> from step 5 on, given the scored news of step 4: load the ledger at \<open>now\<close>,
  drop the news already sent, summarise, send, save.  \<open>summarizeAllNews\<close> is the
  summary stage, a parameter; \<open>clock\<close> and \<open>disk\<close> are those of \<open>saveSentNews\<close>.
  \<open>saveSentNews\<close> is called with all of \<open>unsentNews\<close>; the count \<open>sendNewsSummaries\<close>
  returns is only logged.
\<close>

definition main_from_step5 ::
  "env \<Rightarrow> (nat \<Rightarrow> jserror option) \<Rightarrow> int \<Rightarrow> (nat \<Rightarrow> int) \<Rightarrow> jserror option
     \<Rightarrow> ('a news_item_scheme list \<Rightarrow> jsstring list)
     \<Rightarrow> 'a news_item_scheme list \<Rightarrow> ledger_file \<Rightarrow> telegram \<Rightarrow> run_result" where
  "main_from_step5 e net now clock disk summarizeAllNews scoredNews file st =
     (case loadSentNews now disk file of
        (loaded, file1) \<Rightarrow>
          let sentUrls = urls loaded;
              existingRecords = records loaded;
              unsentNews = filterUnsentNews scoredNews sentUrls
          in if unsentNews = []
             then (case sendSimpleMessage e net msg_all_sent st of
                     (ok, st') \<Rightarrow> \<lparr>exitCode = 0, ledger = file1, channel = st'\<rparr>)
             else
               let summaries = summarizeAllNews unsentNews
               in case sendNewsSummaries e net summaries st of
                    (Inl err, st') \<Rightarrow> mainCatch e net err file1 st'
                  | (Inr sentCount, st') \<Rightarrow>
                      (case saveSentNews clock disk unsentNews existingRecords file1 of
                         Inl err \<Rightarrow> mainCatch e net err file1 st'
                       | Inr file2 \<Rightarrow> \<lparr>exitCode = 0, ledger = file2, channel = st'\<rparr>))"

text \<open>
  A sample run: two summaries of 2500 characters each, too long to be combined, and a
  channel that refuses the first three calls and accepts every later one.
\<close>

definition long_summary :: jsstring where
  "long_summary = replicate 2500 0x61"

definition long_summaries :: "news_item list \<Rightarrow> jsstring list" where
  "long_summaries news = map (\<lambda>item. long_summary) news"

definition flaky_net :: "nat \<Rightarrow> jserror option" where
  "flaky_net k = (if k < 3 then Some (Error (ascii ''ETIMEDOUT'')) else None)"

section \<open>Properties of the message chunker\<close>

lemma hardSplit_stop: "length r \<le> n \<Longrightarrow> hardSplit n ms r = Some (ms, r)"
  by (subst hardSplit.simps) simp

lemma hardSplit_go:
  "n < length r \<Longrightarrow> hardSplit n ms r = hardSplit n (ms @ [take n r]) (drop n r)"
  by (subst hardSplit.simps) simp

lemma hardSplit_good:
  assumes "0 < n"
  shows "\<exists>ms' r'. hardSplit n ms r = Some (ms', r')
           \<and> set ms' \<subseteq> set ms \<union> {c. length c = n}
           \<and> length r' \<le> n \<and> (r \<noteq> [] \<longrightarrow> r' \<noteq> [])"
proof (induction "length r" arbitrary: ms r rule: less_induct)
  case less
  show ?case
  proof (cases "length r > n")
    case False
    then show ?thesis by (subst hardSplit.simps) auto
  next
    case True
    have "length (drop n r) < length r" using True assms by simp
    from less[OF this, of "ms @ [take n r]"] obtain ms' r' where
      h: "hardSplit n (ms @ [take n r]) (drop n r) = Some (ms', r')"
         "set ms' \<subseteq> set (ms @ [take n r]) \<union> {c. length c = n}"
         "length r' \<le> n" "drop n r \<noteq> [] \<longrightarrow> r' \<noteq> []" by blast
    have "length (take n r) = n" using True by simp
    with h True show ?thesis
      by (subst hardSplit.simps) auto
  qed
qed

lemma splitStep_good:
  assumes "0 < n" "chunk_inv n st"
  shows "\<exists>st'. splitStep n st line = Some st' \<and> chunk_inv n st'"
proof -
  obtain ms cur where st: "st = (ms, cur)" by (cases st)
  show ?thesis
  proof (cases "length cur + length line + 1 \<le> n")
    case True
    then show ?thesis using assms st by (auto simp: splitStep_def chunk_inv_def)
  next
    case False
    define ms' where "ms' = (if cur \<noteq> [] then ms @ [cur] else ms)"
    have ms': "\<forall>m \<in> set ms'. m \<noteq> [] \<and> length m \<le> n"
      using assms st by (auto simp: ms'_def chunk_inv_def)
    show ?thesis
    proof (cases "length line > n")
      case True
      from hardSplit_good[OF assms(1), of ms' line] obtain a b where
        h: "hardSplit n ms' line = Some (a, b)" "set a \<subseteq> set ms' \<union> {c. length c = n}"
           "length b \<le> n" by blast
      have "chunk_inv n (a, b)" using h ms' assms(1) by (auto simp: chunk_inv_def)
      moreover have "splitStep n st line = Some (a, b)"
        using False True h(1) st by (simp add: splitStep_def ms'_def Let_def)
      ultimately show ?thesis by blast
    next
      case F2: False
      have "splitStep n st line = Some (ms', line)"
        using False F2 st by (simp add: splitStep_def ms'_def Let_def)
      moreover have "chunk_inv n (ms', line)" using ms' F2 by (simp add: chunk_inv_def)
      ultimately show ?thesis by blast
    qed
  qed
qed

lemma splitLines_good:
  assumes "0 < n"
  shows "chunk_inv n st \<Longrightarrow> \<exists>st'. splitLines n st lines = Some st' \<and> chunk_inv n st'"
proof (induction lines arbitrary: st)
  case Nil
  then show ?case by simp
next
  case (Cons line lines)
  from splitStep_good[OF assms Cons.prems, of line] obtain st1 where
    s: "splitStep n st line = Some st1" "chunk_inv n st1" by blast
  from Cons.IH[OF s(2)] s(1) show ?case by simp
qed

text \<open>
  C2: for every text and every \<open>maxLen \<ge> 1\<close>, \<open>splitMessage\<close> returns, and every
  chunk it returns has length at most \<open>maxLen\<close>; for a non-empty text longer than
  \<open>maxLen\<close> no chunk is the empty string.
\<close>

theorem splitMessage_chunk_bounds:
  assumes "1 \<le> maxLen"
  shows "\<exists>chunks. splitMessage text maxLen = Some chunks
           \<and> (\<forall>c \<in> set chunks. length c \<le> maxLen)
           \<and> (text \<noteq> [] \<and> maxLen < length text \<longrightarrow> [] \<notin> set chunks)"
proof (cases "length text \<le> maxLen")
  case True
  then show ?thesis by (simp add: splitMessage_def)
next
  case False
  have pos: "0 < maxLen" using assms by simp
  have "chunk_inv maxLen ([], [])" by (simp add: chunk_inv_def)
  from splitLines_good[OF pos this] obtain st' where
    s: "splitLines maxLen ([], []) (jsplit text) = Some st'" "chunk_inv maxLen st'"
    by blast
  obtain ms cur where st': "st' = (ms, cur)" by (cases st')
  define chunks where "chunks = (if cur \<noteq> [] then ms @ [cur] else ms)"
  have eq: "splitMessage text maxLen = Some chunks"
    using False s(1) st' by (simp add: splitMessage_def chunks_def)
  have all: "\<forall>c \<in> set chunks. c \<noteq> [] \<and> length c \<le> maxLen"
    using s(2) st' by (simp add: chunk_inv_def chunks_def)
  have "\<forall>c \<in> set chunks. length c \<le> maxLen" using all by blast
  moreover have "[] \<notin> set chunks" using all by blast
  ultimately show ?thesis using eq by blast
qed

theorem splitMessage_chunk_bounds_witness:
  "(1::nat) \<le> 3
   \<and> splitMessage (ascii ''abcdefg'' @ [nl] @ ascii ''x'') 3
       = Some [ascii ''abc'', ascii ''def'', ascii ''g'' @ [nl] @ ascii ''x'']
   \<and> (\<exists>chunks. splitMessage (ascii ''abcdefg'' @ [nl] @ ascii ''x'') 3 = Some chunks
           \<and> (\<forall>c \<in> set chunks. length c \<le> 3)
           \<and> (ascii ''abcdefg'' @ [nl] @ ascii ''x'' \<noteq> [] \<and> 3 < length (ascii ''abcdefg'' @ [nl] @ ascii ''x'') \<longrightarrow> [] \<notin> set chunks))"
  using splitMessage_chunk_bounds [of 3 "ascii ''abcdefg'' @ [nl] @ ascii ''x''"]
  by (simp add: splitMessage_def splitStep_def ascii_def nl_def hardSplit_stop hardSplit_go)

lemma jsplit_ne [simp]: "jsplit s \<noteq> []"
  by (induction s) auto

lemma joinNl_append:
  "A \<noteq> [] \<Longrightarrow> R \<noteq> [] \<Longrightarrow> joinNl (A @ R) = joinNl A @ nl # joinNl R"
proof (induction A rule: joinNl.induct)
  case 1
  then show ?case by simp
next
  case (2 x)
  then show ?case by (cases R) auto
next
  case (3 x y ys)
  then show ?case by simp
qed

lemma joinNl_jsplit: "joinNl (jsplit s) = s"
proof (induction s)
  case Nil
  then show ?case by simp
next
  case (Cons c cs)
  obtain l ls where sp: "jsplit cs = l # ls" by (cases "jsplit cs") auto
  show ?case
  proof (cases "c = nl")
    case True
    then show ?thesis using Cons sp by simp
  next
    case False
    then show ?thesis using Cons sp by (cases ls) auto
  qed
qed

lemma joinNl_snoc_merge:
  "joinNl (xs @ [a @ nl # b]) = joinNl (xs @ [a, b])"
  by (induction xs rule: joinNl.induct) auto

lemma joinNl_cong_append:
  assumes "joinNl A = joinNl B" "A \<noteq> []" "B \<noteq> []"
  shows "joinNl (A @ R) = joinNl (B @ R)"
proof (cases "R = []")
  case True
  then show ?thesis using assms by simp
next
  case False
  then show ?thesis using assms by (simp add: joinNl_append)
qed

lemma hardPieces_ne [simp]: "hardPieces n l \<noteq> []"
  by (subst hardPieces.simps) simp

lemma hardPieces_fit: "length l \<le> n \<Longrightarrow> hardPieces n l = [l]"
  by (subst hardPieces.simps) simp

lemma hardPieces_last_ne: "l \<noteq> [] \<Longrightarrow> last (hardPieces n l) \<noteq> []"
proof (induction n l rule: hardPieces.induct)
  case (1 n l)
  show ?case
  proof (cases "n = 0 \<or> length l \<le> n")
    case True
    then show ?thesis using "1.prems" by (subst hardPieces.simps) simp
  next
    case False
    then have "drop n l \<noteq> []" by simp
    from "1.IH"[OF False this] False show ?thesis
      by (subst hardPieces.simps) simp
  qed
qed

lemma hardSplit_pieces:
  "0 < n \<Longrightarrow>
   hardSplit n ms r = Some (ms @ butlast (hardPieces n r), last (hardPieces n r))"
proof (induction n r arbitrary: ms rule: hardPieces.induct)
  case (1 n l)
  show ?case
  proof (cases "n = 0 \<or> length l \<le> n")
    case True
    then have le: "length l \<le> n" using "1.prems" by auto
    then show ?thesis by (simp add: hardSplit_stop hardPieces_fit)
  next
    case False
    then have gt: "n < length l" by simp
    have hp: "hardPieces n l = take n l # hardPieces n (drop n l)"
      using False by (subst hardPieces.simps) simp
    show ?thesis
      using "1.IH"[OF False "1.prems", of "ms @ [take n l]"] gt
      by (simp add: hardSplit_go hp)
  qed
qed

lemma splitStep_join:
  assumes "0 < n" "line \<noteq> []"
  shows "\<exists>st'. splitStep n st line = Some st' \<and> chunksOf st' \<noteq> []
           \<and> joinNl (chunksOf st') = joinNl (chunksOf st @ hardPieces n line)"
proof -
  obtain ms cur where st: "st = (ms, cur)" by (cases st)
  show ?thesis
  proof (cases "length cur + length line + 1 \<le> n")
    case True
    then have fit: "hardPieces n line = [line]" by (simp add: hardPieces_fit)
    have step: "splitStep n st line = Some (ms, cur @ (if cur \<noteq> [] then [nl] else []) @ line)"
      using True st by (simp add: splitStep_def)
    show ?thesis
    proof (cases "cur = []")
      case True
      then show ?thesis using step fit assms(2) st by (simp add: chunksOf_def)
    next
      case False
      then show ?thesis using step fit assms(2) st
        by (simp add: chunksOf_def joinNl_snoc_merge)
    qed
  next
    case False
    define ms' where "ms' = (if cur \<noteq> [] then ms @ [cur] else ms)"
    have ms': "ms' = chunksOf st" using st by (simp add: ms'_def chunksOf_def)
    show ?thesis
    proof (cases "length line > n")
      case True
      have "splitStep n st line = hardSplit n ms' line"
        using False True st by (simp add: splitStep_def ms'_def Let_def)
      then have step: "splitStep n st line
          = Some (ms' @ butlast (hardPieces n line), last (hardPieces n line))"
        by (simp add: hardSplit_pieces[OF assms(1)])
      have "last (hardPieces n line) \<noteq> []" using assms(2) by (rule hardPieces_last_ne)
      then have "chunksOf (ms' @ butlast (hardPieces n line), last (hardPieces n line))
          = ms' @ hardPieces n line"
        by (simp add: chunksOf_def)
      then show ?thesis using step ms' by simp
    next
      case F2: False
      have "splitStep n st line = Some (ms', line)"
        using False F2 st by (simp add: splitStep_def ms'_def Let_def)
      moreover have "hardPieces n line = [line]" using F2 by (simp add: hardPieces_fit)
      ultimately show ?thesis using ms' assms(2) by (simp add: chunksOf_def)
    qed
  qed
qed

lemma splitLines_join:
  assumes "0 < n"
  shows "[] \<notin> set lines \<Longrightarrow>
     \<exists>st'. splitLines n st lines = Some st'
        \<and> joinNl (chunksOf st') = joinNl (chunksOf st @ concat (map (hardPieces n) lines))"
proof (induction lines arbitrary: st)
  case Nil
  then show ?case by simp
next
  case (Cons line lines)
  then have ne: "line \<noteq> []" and rest: "[] \<notin> set lines" by auto
  from splitStep_join[OF assms ne, of st] obtain st1 where
    s1: "splitStep n st line = Some st1" "chunksOf st1 \<noteq> []"
        "joinNl (chunksOf st1) = joinNl (chunksOf st @ hardPieces n line)" by blast
  from Cons.IH[OF rest, of st1] obtain st2 where
    s2: "splitLines n st1 lines = Some st2"
        "joinNl (chunksOf st2) = joinNl (chunksOf st1 @ concat (map (hardPieces n) lines))"
    by blast
  have "chunksOf st @ hardPieces n line \<noteq> []" by simp
  from joinNl_cong_append[OF s1(3) s1(2) this]
  have "joinNl (chunksOf st1 @ concat (map (hardPieces n) lines))
      = joinNl ((chunksOf st @ hardPieces n line) @ concat (map (hardPieces n) lines))" .
  then show ?case using s1(1) s2 by simp
qed

lemma splitStep_blank_dropped:
  assumes "0 < n" "blankDropped n (snd st) line"
  shows "\<exists>st'. splitStep n st line = Some st' \<and> chunksOf st' = chunksOf st"
proof -
  obtain ms cur where st: "st = (ms, cur)" by (cases st)
  from assms(2) st have l: "line = []" and c: "cur = [] \<or> n \<le> length cur"
    by (simp_all add: blankDropped_def)
  show ?thesis
  proof (cases "cur = []")
    case True
    then show ?thesis using assms(1) st l by (simp add: splitStep_def chunksOf_def)
  next
    case False
    then have "n \<le> length cur" using c by simp
    then show ?thesis using False assms(1) st l
      by (simp add: splitStep_def chunksOf_def Let_def)
  qed
qed

lemma splitStep_blank_kept:
  assumes "0 < n" "line = []" "\<not> blankDropped n (snd st) line"
  shows "\<exists>st'. splitStep n st line = Some st' \<and> chunksOf st' \<noteq> []
           \<and> joinNl (chunksOf st') = joinNl (chunksOf st @ hardPieces n line)"
proof -
  obtain ms cur where st: "st = (ms, cur)" by (cases st)
  from assms(2,3) st have c: "cur \<noteq> []" "length cur < n"
    by (simp_all add: blankDropped_def)
  have step: "splitStep n st line = Some (ms, cur @ [nl])"
    using c st assms(2) by (simp add: splitStep_def)
  have hp: "hardPieces n line = [[]]" using assms(2) by (simp add: hardPieces_fit)
  have "joinNl (ms @ [cur @ nl # []]) = joinNl (ms @ [cur, []])" by (rule joinNl_snoc_merge)
  then show ?thesis using step hp c st by (simp add: chunksOf_def)
qed

lemma splitStep_kept:
  assumes "0 < n" "\<not> blankDropped n (snd st) line"
  shows "\<exists>st'. splitStep n st line = Some st' \<and> chunksOf st' \<noteq> []
           \<and> joinNl (chunksOf st') = joinNl (chunksOf st @ hardPieces n line)"
proof (cases "line = []")
  case True
  then show ?thesis using splitStep_blank_kept[OF assms(1) True assms(2)] by simp
next
  case False
  then show ?thesis using splitStep_join[OF assms(1) False, of st] by simp
qed

lemma splitLines_surviving:
  assumes "0 < n"
  shows "\<exists>st'. splitLines n st lines = Some st'
        \<and> joinNl (chunksOf st') = joinNl (chunksOf st @ survivingPieces n st lines)"
proof (induction lines arbitrary: st)
  case Nil
  then show ?case by simp
next
  case (Cons line lines)
  show ?case
  proof (cases "blankDropped n (snd st) line")
    case True
    from splitStep_blank_dropped[OF assms True] obtain st1 where
      s1: "splitStep n st line = Some st1" "chunksOf st1 = chunksOf st" by blast
    from Cons.IH[of st1] obtain st2 where
      s2: "splitLines n st1 lines = Some st2"
          "joinNl (chunksOf st2) = joinNl (chunksOf st1 @ survivingPieces n st1 lines)"
      by blast
    show ?thesis using True s1 s2 by simp
  next
    case False
    from splitStep_kept[OF assms False] obtain st1 where
      s1: "splitStep n st line = Some st1" "chunksOf st1 \<noteq> []"
          "joinNl (chunksOf st1) = joinNl (chunksOf st @ hardPieces n line)" by blast
    from Cons.IH[of st1] obtain st2 where
      s2: "splitLines n st1 lines = Some st2"
          "joinNl (chunksOf st2) = joinNl (chunksOf st1 @ survivingPieces n st1 lines)"
      by blast
    have "chunksOf st @ hardPieces n line \<noteq> []" by simp
    from joinNl_cong_append[OF s1(3) s1(2) this]
    have "joinNl (chunksOf st1 @ survivingPieces n st1 lines)
        = joinNl ((chunksOf st @ hardPieces n line) @ survivingPieces n st1 lines)" .
    then show ?thesis using False s1(1) s2 by simp
  qed
qed

lemma survivingPieces_all:
  assumes "0 < n"
  shows "\<not> dropsBlank n st lines \<Longrightarrow>
     survivingPieces n st lines = concat (map (hardPieces n) lines)"
proof (induction lines arbitrary: st)
  case Nil
  then show ?case by simp
next
  case (Cons line lines)
  then have nb: "\<not> blankDropped n (snd st) line" by simp
  from splitStep_kept[OF assms nb] obtain st1 where
    s1: "splitStep n st line = Some st1" by blast
  with Cons.prems have "\<not> dropsBlank n st1 lines" by simp
  from Cons.IH[OF this] show ?case using nb s1 by simp
qed

text \<open>
  C9 (as amended): a text of length at most \<open>maxLen\<close> comes back as the single chunk
  equal to the input.  For a longer text and \<open>maxLen \<ge> 1\<close>, \<open>splitMessage\<close> returns, and
  joining its chunks with a newline gives the lines of the original text joined by
  newlines, with every line longer than \<open>maxLen\<close> cut into \<open>maxLen\<close>-sized pieces and
  with those empty lines left out that arrive while the chunk being built is empty or
  already holds \<open>maxLen\<close> code units.  When no empty line arrives so, the only
  deviation from the original text is the newlines between hard-split pieces, and when
  moreover no line is longer than \<open>maxLen\<close> the join is exactly the original text.
\<close>

theorem splitMessage_roundtrip:
  assumes "1 \<le> maxLen"
  shows "(length text \<le> maxLen \<longrightarrow> splitMessage text maxLen = Some [text])
       \<and> (maxLen < length text \<longrightarrow>
            (\<exists>chunks. splitMessage text maxLen = Some chunks
               \<and> joinNl chunks = joinNl (survivingPieces maxLen ([], []) (jsplit text))
               \<and> (\<not> dropsBlank maxLen ([], []) (jsplit text) \<longrightarrow>
                    joinNl chunks = joinNl (concat (map (hardPieces maxLen) (jsplit text))))
               \<and> (\<not> dropsBlank maxLen ([], []) (jsplit text)
                    \<and> (\<forall>l \<in> set (jsplit text). length l \<le> maxLen) \<longrightarrow>
                    joinNl chunks = text)))"
proof (intro conjI impI)
  assume "length text \<le> maxLen"
  then show "splitMessage text maxLen = Some [text]" by (simp add: splitMessage_def)
next
  assume a: "maxLen < length text"
  have pos: "0 < maxLen" using assms by simp
  from splitLines_surviving[OF pos, of "([], [])" "jsplit text"] obtain st' where
    s: "splitLines maxLen ([], []) (jsplit text) = Some st'"
       "joinNl (chunksOf st') = joinNl (survivingPieces maxLen ([], []) (jsplit text))"
    by (auto simp: chunksOf_def)
  obtain ms cur where st': "st' = (ms, cur)" by (cases st')
  have eq: "splitMessage text maxLen = Some (chunksOf st')"
    using a s(1) st' by (simp add: splitMessage_def chunksOf_def)
  have all: "\<not> dropsBlank maxLen ([], []) (jsplit text) \<longrightarrow>
      joinNl (chunksOf st') = joinNl (concat (map (hardPieces maxLen) (jsplit text)))"
    using s(2) survivingPieces_all[OF pos, of "([], [])" "jsplit text"] by simp
  have fit: "\<not> dropsBlank maxLen ([], []) (jsplit text)
      \<and> (\<forall>l \<in> set (jsplit text). length l \<le> maxLen) \<longrightarrow> joinNl (chunksOf st') = text"
  proof
    assume h: "\<not> dropsBlank maxLen ([], []) (jsplit text)
      \<and> (\<forall>l \<in> set (jsplit text). length l \<le> maxLen)"
    then have m: "map (hardPieces maxLen) (jsplit text) = map (\<lambda>l. [l]) (jsplit text)"
      by (simp add: hardPieces_fit)
    have "concat (map (hardPieces maxLen) (jsplit text)) = concat (map (\<lambda>l. [l]) (jsplit text))"
      by (simp only: m)
    also have "\<dots> = jsplit text" by simp
    finally have "concat (map (hardPieces maxLen) (jsplit text)) = jsplit text" .
    then show "joinNl (chunksOf st') = text" using all h by (simp add: joinNl_jsplit)
  qed
  show "\<exists>chunks. splitMessage text maxLen = Some chunks
               \<and> joinNl chunks = joinNl (survivingPieces maxLen ([], []) (jsplit text))
               \<and> (\<not> dropsBlank maxLen ([], []) (jsplit text) \<longrightarrow>
                    joinNl chunks = joinNl (concat (map (hardPieces maxLen) (jsplit text))))
               \<and> (\<not> dropsBlank maxLen ([], []) (jsplit text)
                    \<and> (\<forall>l \<in> set (jsplit text). length l \<le> maxLen) \<longrightarrow>
                    joinNl chunks = text)"
    using eq s(2) all fit by blast
qed

theorem splitMessage_roundtrip_witness:
  "(1::nat) \<le> 4
   \<and> 4 < length (ascii ''a'' @ [nl] @ [nl] @ ascii ''bc'' @ [nl])
   \<and> jsplit (ascii ''a'' @ [nl] @ [nl] @ ascii ''bc'' @ [nl]) = [ascii ''a'', [], ascii ''bc'', []]
   \<and> dropsBlank 4 ([], []) (jsplit (ascii ''a'' @ [nl] @ [nl] @ ascii ''bc'' @ [nl])) = False
   \<and> splitMessage (ascii ''a'' @ [nl] @ [nl] @ ascii ''bc'' @ [nl]) 4
       = Some [ascii ''a'' @ [nl], ascii ''bc'' @ [nl]]
   \<and> joinNl [ascii ''a'' @ [nl], ascii ''bc'' @ [nl]]
       = ascii ''a'' @ [nl] @ [nl] @ ascii ''bc'' @ [nl]"
proof -
  let ?t = "ascii ''a'' @ [nl] @ [nl] @ ascii ''bc'' @ [nl]"
  have h1: "(1::nat) \<le> 4" by simp
  have h2: "4 < length ?t" by (simp add: ascii_def)
  have sp: "jsplit ?t = [ascii ''a'', [], ascii ''bc'', []]" by (simp add: ascii_def nl_def)
  have h3: "dropsBlank 4 ([], []) (jsplit ?t) = False"
    by (simp add: sp) (simp add: blankDropped_def splitStep_def ascii_def nl_def)
  have h4: "\<forall>l \<in> set (jsplit ?t). length l \<le> 4" by (simp add: sp) (simp add: ascii_def)
  have h5: "splitMessage ?t 4 = Some [ascii ''a'' @ [nl], ascii ''bc'' @ [nl]]"
    by (simp add: splitMessage_def splitStep_def ascii_def nl_def hardSplit_stop hardSplit_go)
  from splitMessage_roundtrip [OF h1, of ?t] h2 h3 h4
  have "\<exists>chunks. splitMessage ?t 4 = Some chunks \<and> joinNl chunks = ?t" by blast
  with h5 have "joinNl [ascii ''a'' @ [nl], ascii ''bc'' @ [nl]] = ?t" by simp
  with h1 h2 sp h3 h5 show ?thesis by blast
qed

text \<open>
  The claim as stated fails when an empty line arrives while the chunk is empty: the text
  \<open>"\nabc"\<close> with limit 3 has no line longer than the limit, yet the only chunk is
  \<open>"abc"\<close> and the leading newline is gone.
\<close>

theorem splitMessage_roundtrip_counterexample:
  "3 < length ([nl] @ ascii ''abc'')
   \<and> jsplit ([nl] @ ascii ''abc'') = [[], ascii ''abc'']
   \<and> splitMessage ([nl] @ ascii ''abc'') 3 = Some [ascii ''abc'']
   \<and> joinNl [ascii ''abc''] \<noteq> [nl] @ ascii ''abc''"
  by (simp add: splitMessage_def splitStep_def ascii_def nl_def hardSplit_stop hardSplit_go)

section \<open>Properties of the keyword prefilter\<close>

lemma containsKeywords_triggered:
  "containsKeywords lower (title item @ ascii '' '' @ description item) keywords
     = category_triggered lower item keywords"
  by (simp add: containsKeywords_def category_triggered_def ascii_def list_ex_iff)

lemma countCategoryMatches_eq:
  "countCategoryMatches lower (title item) (description item)
     = \<lparr>crypto = category_triggered lower item KEYWORDS_crypto,
        fed = category_triggered lower item KEYWORDS_fed,
        macro = category_triggered lower item KEYWORDS_macro,
        categoryCount = matched_categories lower item\<rparr>"
  by (simp add: countCategoryMatches_def containsKeywords_triggered matched_categories_def
      Let_def)

text \<open>
  C6: \<open>filterByKeywords\<close> keeps, in input order, exactly the items with at least 2 of
  the 3 categories triggered (so items with 0 or 1 are dropped and items with 2 or 3 are
  kept), and every item it keeps carries in \<open>keywordMatches\<close> the three per-category
  booleans and their count.
\<close>

theorem filterByKeywords_two_of_three:
  "filterByKeywords lower news =
     map (\<lambda>item. item\<lparr>keywordMatches := Some
            \<lparr>crypto = category_triggered lower item KEYWORDS_crypto,
             fed = category_triggered lower item KEYWORDS_fed,
             macro = category_triggered lower item KEYWORDS_macro,
             categoryCount = matched_categories lower item\<rparr>\<rparr>)
       (filter (\<lambda>item. 2 \<le> matched_categories lower item) news)"
proof (induction news)
  case Nil
  then show ?case by simp
next
  case (Cons item news)
  show ?case
    by (simp add: countCategoryMatches_eq Let_def Cons.IH)
qed

lemma KEYWORDS_crypto_lower:
  "map asciiLower KEYWORDS_crypto =
     [[99, 114, 121, 112, 116, 111],
      [99, 114, 121, 112, 116, 111, 99, 117, 114, 114, 101, 110, 99, 121],
      [98, 105, 116, 99, 111, 105, 110],
      [98, 116, 99],
      [101, 116, 104, 101, 114, 101, 117, 109],
      [101, 116, 104],
      [98, 108, 111, 99, 107, 99, 104, 97, 105, 110],
      [100, 105, 103, 105, 116, 97, 108, 32, 99, 117, 114, 114, 101, 110, 99, 121],
      [115, 116, 97, 98, 108, 101, 99, 111, 105, 110],
      [100, 101, 102, 105],
      [110, 102, 116],
      [97, 108, 116, 99, 111, 105, 110],
      [116, 111, 107, 101, 110],
      [119, 97, 108, 108, 101, 116],
      [101, 120, 99, 104, 97, 110, 103, 101],
      [109, 105, 110, 105, 110, 103],
      [104, 97, 115, 104],
      [115, 97, 116, 111, 115, 104, 105],
      [104, 111, 100, 108],
      [102, 105, 97, 116],
      [99, 114, 121, 112, 116, 111, 32, 109, 97, 114, 107, 101, 116],
      [100, 105, 103, 105, 116, 97, 108, 32, 97, 115, 115, 101, 116]]"
  by (simp add: KEYWORDS_crypto_def asciiLower_def ascii_def)

lemma KEYWORDS_fed_lower:
  "map asciiLower KEYWORDS_fed =
     [[102, 101, 100, 101, 114, 97, 108, 32, 114, 101, 115, 101, 114, 118, 101],
      [102, 101, 100],
      [102, 111, 109, 99],
      [105, 110, 116, 101, 114, 101, 115, 116, 32, 114, 97, 116, 101],
      [109, 111, 110, 101, 116, 97, 114, 121, 32, 112, 111, 108, 105, 99, 121],
      [112, 111, 119, 101, 108, 108],
      [105, 110, 102, 108, 97, 116, 105, 111, 110],
      [100, 101, 102, 108, 97, 116, 105, 111, 110],
      [113, 117, 97, 110, 116, 105, 116, 97, 116, 105, 118, 101, 32, 101, 97, 115, 105, 110, 103],
      [113, 101],
      [116, 97, 112, 101, 114, 105, 110, 103],
      [114, 97, 116, 101, 32, 104, 105, 107, 101],
      [114, 97, 116, 101, 32, 99, 117, 116],
      [102, 101, 100, 101, 114, 97, 108, 32, 102, 117, 110, 100, 115, 32, 114, 97, 116, 101],
      [99, 101, 110, 116, 114, 97, 108, 32, 98, 97, 110, 107],
      [106, 101, 114, 111, 109, 101, 32, 112, 111, 119, 101, 108, 108],
      [102, 101, 100, 32, 99, 104, 97, 105, 114]]"
  by (simp add: KEYWORDS_fed_def asciiLower_def ascii_def)

lemma KEYWORDS_macro_lower:
  "map asciiLower KEYWORDS_macro =
     [[103, 100, 112],
      [117, 110, 101, 109, 112, 108, 111, 121, 109, 101, 110, 116],
      [99, 112, 105],
      [112, 112, 105],
      [116, 114, 101, 97, 115, 117, 114, 121],
      [98, 111, 110, 100, 32, 121, 105, 101, 108, 100],
      [101, 99, 111, 110, 111, 109, 105, 99, 32, 103, 114, 111, 119, 116, 104],
      [114, 101, 99, 101, 115, 115, 105, 111, 110],
      [115, 116, 97, 103, 102, 108, 97, 116, 105, 111, 110],
      [102, 105, 115, 99, 97, 108, 32, 112, 111, 108, 105, 99, 121],
      [103, 111, 118, 101, 114, 110, 109, 101, 110, 116, 32, 115, 112, 101, 110, 100, 105, 110, 103],
      [100, 101, 98, 116, 32, 99, 101, 105, 108, 105, 110, 103],
      [116, 114, 97, 100, 101, 32, 100, 101, 102, 105, 99, 105, 116],
      [115, 117, 114, 112, 108, 117, 115],
      [101, 109, 112, 108, 111, 121, 109, 101, 110, 116],
      [106, 111, 98, 32, 109, 97, 114, 107, 101, 116],
      [99, 111, 110, 115, 117, 109, 101, 114, 32, 112, 114, 105, 99, 101],
      [112, 114, 111, 100, 117, 99, 101, 114, 32, 112, 114, 105, 99, 101],
      [101, 99, 111, 110, 111, 109, 105, 99, 32, 105, 110, 100, 105, 99, 97, 116, 111, 114],
      [109, 97, 99, 114, 111, 101, 99, 111, 110, 111, 109, 105, 99]]"
  by (simp add: KEYWORDS_macro_def asciiLower_def ascii_def)

lemma containsKeywords_asciiLower:
  "text \<noteq> [] \<Longrightarrow>
   containsKeywords asciiLower text keywords
     = list_ex (jsIncludes (asciiLower text)) (map asciiLower keywords)"
  by (simp add: containsKeywords_def list_ex_iff)

theorem filterByKeywords_two_of_three_witness:
  "filterByKeywords asciiLower example_news = example_news_kept
   \<and> map (\<lambda>item. item\<lparr>keywordMatches := Some
            \<lparr>crypto = category_triggered asciiLower item KEYWORDS_crypto,
             fed = category_triggered asciiLower item KEYWORDS_fed,
             macro = category_triggered asciiLower item KEYWORDS_macro,
             categoryCount = matched_categories asciiLower item\<rparr>\<rparr>)
       (filter (\<lambda>item. 2 \<le> matched_categories asciiLower item) example_news)
     = example_news_kept"
proof -
  note ev = countCategoryMatches_def containsKeywords_asciiLower KEYWORDS_crypto_lower
    KEYWORDS_fed_lower KEYWORDS_macro_lower asciiLower_def ascii_def Let_def
  have m0: "countCategoryMatches asciiLower (ascii ''Rain'') []
      = \<lparr>crypto = False, fed = False, macro = False, categoryCount = 0\<rparr>"
    by (simp add: ev)
  have m1: "countCategoryMatches asciiLower (ascii ''BTC up'') []
      = \<lparr>crypto = True, fed = False, macro = False, categoryCount = 1\<rparr>"
    by (simp add: ev)
  have m2: "countCategoryMatches asciiLower (ascii ''BTC'') (ascii ''Fed'')
      = \<lparr>crypto = True, fed = True, macro = False, categoryCount = 2\<rparr>"
    by (simp add: ev)
  have m3: "countCategoryMatches asciiLower (ascii ''Btc Fed'') (ascii ''GDP'')
      = \<lparr>crypto = True, fed = True, macro = True, categoryCount = 3\<rparr>"
    by (simp add: ev)
  have e: "filterByKeywords asciiLower example_news = example_news_kept"
    by (simp add: example_news_def example_news_kept_def m0 m1 m2 m3)
  from filterByKeywords_two_of_three [of asciiLower example_news] e show ?thesis
    by (intro conjI) (rule e, rule trans [OF sym e], assumption)
qed

section \<open>Properties of impact scoring\<close>

lemma validated_parseFailureResult:
  "validated P parseFailureResult
     = Inr \<lparr>policyStrength = Fin 10, expectationGap = Fin 10, timeUrgency = Fin 10,
            cryptoRelevance = Fin 10, totalScore = Fin 40, level = JStr level_medium,
            direction = JStr direction_neutral,
            reasoning = JStr reasoning_parse_failed\<rparr>"
  by (simp add: validated_def parseFailureResult_def getProp_def ascii_def clampScore_def
      orElse_def mathMin_def mathMax_def level_medium_def direction_neutral_def
      reasoning_parse_failed_def)

lemma numLe_Fin0 [simp]: "numLe (Fin a) n = (n = PosInf \<or> (\<exists>b. n = Fin b \<and> a \<le> b))"
  by (cases n) auto

lemma clamp_range:
  assumes "0 \<le> hi"
  shows "mathMax (Fin 0) (mathMin (Fin hi) n) = NaN
       \<or> (\<exists>q. mathMax (Fin 0) (mathMin (Fin hi) n) = Fin q \<and> 0 \<le> q \<and> q \<le> hi)"
  using assms by (cases n) (auto simp: mathMax_def mathMin_def)

lemma clampScore_range:
  assumes "clampScore P hi x = Inr n" "0 \<le> hi"
  shows "n = NaN \<or> (\<exists>q. n = Fin q \<and> 0 \<le> q \<and> q \<le> hi)"
proof -
  from assms(1) obtain v where "n = mathMax (Fin 0) (mathMin (Fin hi) v)"
    by (auto simp: clampScore_def split: sum.splits)
  then show ?thesis using clamp_range[OF assms(2), of v] by simp
qed

lemma validated_totalScore_range:
  assumes "validated P result = Inr imp"
  shows "totalScore imp = NaN \<or> (\<exists>q. totalScore imp = Fin q \<and> 0 \<le> q \<and> q \<le> 100)"
proof -
  from assms obtain ts where "clampScore P 100 (getProp result ''totalScore'') = Inr ts"
    and "totalScore imp = ts"
    by (auto simp: validated_def split: sum.splits)
  then show ?thesis using clampScore_range[of P 100 _ ts] by simp
qed

lemma scoreImpact_returns:
  "\<exists>imp. scoreImpact P e reply = Inr imp
     \<and> (totalScore imp = NaN \<or> (\<exists>q. totalScore imp = Fin q \<and> 0 \<le> q \<and> q \<le> 100))"
proof (cases "scoreImpact_try P e reply")
  case (Inl err)
  then show ?thesis by (simp add: scoreImpact_def errorImpact_def)
next
  case (Inr v)
  then have "\<exists>result. validated P result = Inr v"
    by (auto simp: scoreImpact_try_def split: sum.splits oracle_reply.splits)
  then show ?thesis using Inr validated_totalScore_range by (auto simp: scoreImpact_def)
qed

text \<open>
  C3 (a defect of the code): the oracle result
  \<open>{"policyStrength": {"score": 20}, "totalScore": 60}\<close> has a non-numeric
  \<open>policyStrength\<close>; \<open>{} || 0\<close> is the object, \<open>Math.min(25, {})\<close> is \<open>NaN\<close> and so is
  the validated \<open>policyStrength\<close>, which is not a value in [0,25].  The missing
  sub-scores are mapped to 0 and the total is the reported 60.
\<close>

theorem validated_non_numeric_field:
  "validated P
     [(ascii ''policyStrength'', JObj [(ascii ''score'', JNum (Fin 20))]),
      (ascii ''totalScore'', JNum (Fin 60))]
   = Inr \<lparr>policyStrength = NaN, expectationGap = Fin 0, timeUrgency = Fin 0,
          cryptoRelevance = Fin 0, totalScore = Fin 60, level = JStr level_medium,
          direction = JStr direction_neutral, reasoning = JStr reasoning_none\<rparr>"
  by (simp add: validated_def getProp_def ascii_def clampScore_def orElse_def mathMin_def
      mathMax_def)

text \<open>
  C7: when the response has no brace-delimited text or \<open>JSON.parse\<close> rejects it,
  \<open>scoreImpact\<close> returns the four sub-scores 10, the total 40, the level "medium
  impact" and the direction "neutral"; when the oracle call throws (or the API key is
  not configured) it returns the same scores, level and direction, with the reasoning
  made of the prefix "scoring error: " and the error's message.
\<close>

theorem scoreImpact_defaults:
  "(\<not> unset (OPENAI_API_KEY e)
      \<and> (matchBraces (jsTrim c) = None
           \<or> (\<exists>m. matchBraces (jsTrim c) = Some m \<and> jsonParse P m = None))
     \<longrightarrow> scoreImpact P e (Content c)
          = Inr \<lparr>policyStrength = Fin 10, expectationGap = Fin 10, timeUrgency = Fin 10,
                 cryptoRelevance = Fin 10, totalScore = Fin 40, level = JStr level_medium,
                 direction = JStr direction_neutral,
                 reasoning = JStr reasoning_parse_failed\<rparr>)
   \<and> (\<not> unset (OPENAI_API_KEY e)
     \<longrightarrow> scoreImpact P e (Threw err)
          = Inr \<lparr>policyStrength = Fin 10, expectationGap = Fin 10, timeUrgency = Fin 10,
                 cryptoRelevance = Fin 10, totalScore = Fin 40, level = JStr level_medium,
                 direction = JStr direction_neutral,
                 reasoning = JStr (prefix_score_error @ message err)\<rparr>)
   \<and> (unset (OPENAI_API_KEY e)
     \<longrightarrow> scoreImpact P e reply
          = Inr \<lparr>policyStrength = Fin 10, expectationGap = Fin 10, timeUrgency = Fin 10,
                 cryptoRelevance = Fin 10, totalScore = Fin 40, level = JStr level_medium,
                 direction = JStr direction_neutral,
                 reasoning = JStr (prefix_score_error @ msg_no_api_key)\<rparr>)"
proof (intro conjI impI)
  assume a: "\<not> unset (OPENAI_API_KEY e)
      \<and> (matchBraces (jsTrim c) = None
           \<or> (\<exists>m. matchBraces (jsTrim c) = Some m \<and> jsonParse P m = None))"
  then have "parseImpact P (jsTrim c) = parseFailureResult"
    by (auto simp: parseImpact_def)
  then show "scoreImpact P e (Content c)
          = Inr \<lparr>policyStrength = Fin 10, expectationGap = Fin 10, timeUrgency = Fin 10,
                 cryptoRelevance = Fin 10, totalScore = Fin 40, level = JStr level_medium,
                 direction = JStr direction_neutral,
                 reasoning = JStr reasoning_parse_failed\<rparr>"
    using a by (simp add: scoreImpact_def scoreImpact_try_def initOpenAI_def
        validated_parseFailureResult)
next
  assume "\<not> unset (OPENAI_API_KEY e)"
  then show "scoreImpact P e (Threw err)
          = Inr \<lparr>policyStrength = Fin 10, expectationGap = Fin 10, timeUrgency = Fin 10,
                 cryptoRelevance = Fin 10, totalScore = Fin 40, level = JStr level_medium,
                 direction = JStr direction_neutral,
                 reasoning = JStr (prefix_score_error @ message err)\<rparr>"
    by (simp add: scoreImpact_def scoreImpact_try_def initOpenAI_def errorImpact_def)
next
  assume "unset (OPENAI_API_KEY e)"
  then show "scoreImpact P e reply
          = Inr \<lparr>policyStrength = Fin 10, expectationGap = Fin 10, timeUrgency = Fin 10,
                 cryptoRelevance = Fin 10, totalScore = Fin 40, level = JStr level_medium,
                 direction = JStr direction_neutral,
                 reasoning = JStr (prefix_score_error @ msg_no_api_key)\<rparr>"
    by (simp add: scoreImpact_def scoreImpact_try_def initOpenAI_def errorImpact_def)
qed

theorem scoreImpact_defaults_witness:
  "unset (OPENAI_API_KEY example_env) = False
   \<and> matchBraces (jsTrim (ascii ''  sorry, no json  '')) = None
   \<and> scoreImpact example_platform example_env (Content (ascii ''  sorry, no json  ''))
       = Inr \<lparr>policyStrength = Fin 10, expectationGap = Fin 10, timeUrgency = Fin 10,
              cryptoRelevance = Fin 10, totalScore = Fin 40, level = JStr level_medium,
              direction = JStr direction_neutral,
              reasoning = JStr reasoning_parse_failed\<rparr>
   \<and> scoreImpact example_platform example_env (Threw (Error (ascii ''timeout'')))
       = Inr \<lparr>policyStrength = Fin 10, expectationGap = Fin 10, timeUrgency = Fin 10,
              cryptoRelevance = Fin 10, totalScore = Fin 40, level = JStr level_medium,
              direction = JStr direction_neutral,
              reasoning = JStr (prefix_score_error @ ascii ''timeout'')\<rparr>
   \<and> unset (OPENAI_API_KEY (example_env\<lparr>OPENAI_API_KEY := None\<rparr>))
   \<and> scoreImpact example_platform (example_env\<lparr>OPENAI_API_KEY := None\<rparr>)
         (Content (ascii ''{}''))
       = Inr \<lparr>policyStrength = Fin 10, expectationGap = Fin 10, timeUrgency = Fin 10,
              cryptoRelevance = Fin 10, totalScore = Fin 40, level = JStr level_medium,
              direction = JStr direction_neutral,
              reasoning = JStr (prefix_score_error @ msg_no_api_key)\<rparr>"
proof -
  have k: "unset (OPENAI_API_KEY example_env) = False"
    by (simp add: example_env_def unset_def ascii_def)
  have m: "matchBraces (jsTrim (ascii ''  sorry, no json  '')) = None"
    by (simp add: matchBraces_def jsTrim_def isSpace_def ascii_def)
  have u: "unset (OPENAI_API_KEY (example_env\<lparr>OPENAI_API_KEY := None\<rparr>))"
    by (simp add: unset_def)
  from scoreImpact_defaults [of example_env "ascii ''  sorry, no json  ''" example_platform
      "Error (ascii ''timeout'')"] k m
  have a: "scoreImpact example_platform example_env (Content (ascii ''  sorry, no json  ''))
       = Inr \<lparr>policyStrength = Fin 10, expectationGap = Fin 10, timeUrgency = Fin 10,
              cryptoRelevance = Fin 10, totalScore = Fin 40, level = JStr level_medium,
              direction = JStr direction_neutral,
              reasoning = JStr reasoning_parse_failed\<rparr>"
    and b: "scoreImpact example_platform example_env (Threw (Error (ascii ''timeout'')))
       = Inr \<lparr>policyStrength = Fin 10, expectationGap = Fin 10, timeUrgency = Fin 10,
              cryptoRelevance = Fin 10, totalScore = Fin 40, level = JStr level_medium,
              direction = JStr direction_neutral,
              reasoning = JStr (prefix_score_error @ ascii ''timeout'')\<rparr>"
    by simp_all
  from scoreImpact_defaults [of "example_env\<lparr>OPENAI_API_KEY := None\<rparr>" _ example_platform _
      "Content (ascii ''{}'')"] u
  have c: "scoreImpact example_platform (example_env\<lparr>OPENAI_API_KEY := None\<rparr>)
         (Content (ascii ''{}''))
       = Inr \<lparr>policyStrength = Fin 10, expectationGap = Fin 10, timeUrgency = Fin 10,
              cryptoRelevance = Fin 10, totalScore = Fin 40, level = JStr level_medium,
              direction = JStr direction_neutral,
              reasoning = JStr (prefix_score_error @ msg_no_api_key)\<rparr>"
    by simp
  from k m a b u c show ?thesis by blast
qed

section \<open>Properties of the ranking\<close>

lemma compareImpact_rank:
  assumes "plainTotal x" "plainTotal y"
  shows "isPositive (compareImpact x y) = (rankTotal x < rankTotal y)"
  using assms
  by (auto simp: compareImpact_def totalOrZero_def rankTotal_def plainTotal_def
      split: option.splits)

lemma mset_insertBy: "mset (insertBy cmp x ys) = add_mset x (mset ys)"
  by (induction ys) auto

lemma set_insertBy: "set (insertBy cmp x ys) = insert x (set ys)"
  by (induction ys) auto

lemma sorted_insertBy:
  assumes "plainTotal x" "\<forall>y \<in> set ys. plainTotal y"
    "sorted_wrt (\<lambda>a b. rankTotal b \<le> rankTotal a) ys"
  shows "sorted_wrt (\<lambda>a b. rankTotal b \<le> rankTotal a) (insertBy compareImpact x ys)"
  using assms
proof (induction ys)
  case Nil
  then show ?case by simp
next
  case (Cons y ys)
  show ?case
  proof (cases "rankTotal x < rankTotal y")
    case True
    then have "insertBy compareImpact x (y # ys) = y # insertBy compareImpact x ys"
      using Cons.prems by (simp add: compareImpact_rank)
    moreover have "sorted_wrt (\<lambda>a b. rankTotal b \<le> rankTotal a) (insertBy compareImpact x ys)"
      using Cons by simp
    ultimately show ?thesis using Cons.prems True by (auto simp: set_insertBy)
  next
    case False
    then have "insertBy compareImpact x (y # ys) = x # y # ys"
      using Cons.prems by (simp add: compareImpact_rank)
    then show ?thesis using Cons.prems False by fastforce
  qed
qed

lemma filter_insertBy:
  assumes "plainTotal x" "\<forall>y \<in> set ys. plainTotal y"
  shows "filter (\<lambda>z. rankTotal z = k) (insertBy compareImpact x ys)
       = filter (\<lambda>z. rankTotal z = k) (x # ys)"
  using assms
proof (induction ys)
  case Nil
  then show ?case by simp
next
  case (Cons y ys)
  show ?case
  proof (cases "rankTotal x < rankTotal y")
    case True
    then have "insertBy compareImpact x (y # ys) = y # insertBy compareImpact x ys"
      using Cons.prems by (simp add: compareImpact_rank)
    then show ?thesis using Cons True by auto
  next
    case False
    then have "insertBy compareImpact x (y # ys) = x # y # ys"
      using Cons.prems by (simp add: compareImpact_rank)
    then show ?thesis by simp
  qed
qed

lemma arraySort_ranked:
  assumes "\<forall>x \<in> set xs. plainTotal x"
  shows "mset (arraySort compareImpact xs) = mset xs
       \<and> sorted_wrt (\<lambda>a b. rankTotal b \<le> rankTotal a) (arraySort compareImpact xs)
       \<and> filter (\<lambda>z. rankTotal z = k) (arraySort compareImpact xs)
           = filter (\<lambda>z. rankTotal z = k) xs"
  using assms
proof (induction xs)
  case Nil
  then show ?case by (simp add: arraySort_def)
next
  case (Cons x xs)
  have step: "arraySort compareImpact (x # xs) = insertBy compareImpact x (arraySort compareImpact xs)"
    by (simp add: arraySort_def)
  from Cons have ih: "mset (arraySort compareImpact xs) = mset xs"
    "sorted_wrt (\<lambda>a b. rankTotal b \<le> rankTotal a) (arraySort compareImpact xs)"
    "filter (\<lambda>z. rankTotal z = k) (arraySort compareImpact xs) = filter (\<lambda>z. rankTotal z = k) xs"
    by simp_all
  have px: "plainTotal x" using Cons.prems by simp
  have "set (arraySort compareImpact xs) = set xs" using ih(1) by (rule mset_eq_setD)
  then have pall: "\<forall>y \<in> set (arraySort compareImpact xs). plainTotal y" using Cons.prems by simp
  show ?case
    using sorted_insertBy[OF px pall ih(2)] filter_insertBy[OF px pall, of k] ih(1) ih(3)
    by (simp add: step mset_insertBy)
qed

lemma plainTotal_errorImpact: "totalScore (errorImpact err) = Fin 40"
  by (simp add: errorImpact_def)

lemma plainTotal_scoreItem: "plainTotal (scoreItem P e reply item)"
proof -
  from scoreImpact_returns[of P e reply] obtain imp where
    i: "scoreImpact P e reply = Inr imp"
       "totalScore imp = NaN \<or> (\<exists>q. totalScore imp = Fin q \<and> 0 \<le> q \<and> q \<le> 100)" by blast
  then show ?thesis
    by (auto simp: plainTotal_def scoreItem_def plainTotal_errorImpact split: option.splits)
qed

lemma plainTotal_scoreLoop: "\<forall>x \<in> set (scoreLoop P e replyTo i news). plainTotal x"
  by (induction news arbitrary: i) (auto simp: plainTotal_scoreItem)

text \<open>
  C4: the list \<open>scoreAllNewsImpact\<close> returns is a permutation of the scored items, is
  in descending order of \<open>impact.totalScore\<close> (a \<open>NaN\<close> total ranks as 0, as in the
  comparator), and the items of any one total appear in their input order.
\<close>

theorem scoreAllNewsImpact_sorted_stable:
  "mset (scoreAllNewsImpact P e replyTo news) = mset (scoreLoop P e replyTo 0 news)
   \<and> sorted_wrt (\<lambda>a b. rankTotal b \<le> rankTotal a) (scoreAllNewsImpact P e replyTo news)
   \<and> filter (\<lambda>z. rankTotal z = k) (scoreAllNewsImpact P e replyTo news)
       = filter (\<lambda>z. rankTotal z = k) (scoreLoop P e replyTo 0 news)"
proof (cases "news = []")
  case True
  then show ?thesis by (simp add: scoreAllNewsImpact_def)
next
  case False
  have "\<forall>x \<in> set (scoreLoop P e replyTo 0 news). plainTotal x"
    by (rule plainTotal_scoreLoop)
  from arraySort_ranked [OF this, of k] False show ?thesis
    by (simp add: scoreAllNewsImpact_def)
qed

lemma totals_run:
  "map (\<lambda>x. (url x, rankTotal x)) (scoreLoop totals_platform example_env totals_oracle 0 example_news)
     = [(ascii ''u0'', 40), (ascii ''u1'', 90), (ascii ''u2'', 40), (ascii ''u3'', 10)]"
proof -
  have t90: "jsTrim text_total_90 = text_total_90" "matchBraces text_total_90 = Some text_total_90"
    by (simp_all add: jsTrim_def matchBraces_def isSpace_def text_total_90_def ascii_def)
  have t10: "jsTrim text_total_10 = text_total_10" "matchBraces text_total_10 = Some text_total_10"
    by (simp_all add: jsTrim_def matchBraces_def isSpace_def text_total_10_def ascii_def)
  have ne: "text_total_10 \<noteq> text_total_90"
    by (simp add: text_total_10_def text_total_90_def ascii_def)
  have na: "matchBraces (jsTrim (ascii ''n/a'')) = None"
    by (simp add: jsTrim_def matchBraces_def isSpace_def ascii_def)
  have k: "\<not> unset (OPENAI_API_KEY example_env)"
    by (simp add: example_env_def unset_def ascii_def)
  have r0: "scoreImpact totals_platform example_env (Threw (Error (ascii ''timeout'')))
      = Inr (errorImpact (Error (ascii ''timeout'')))"
    using k by (simp add: scoreImpact_def scoreImpact_try_def initOpenAI_def)
  have r1: "\<exists>imp. scoreImpact totals_platform example_env (Content text_total_90) = Inr imp
      \<and> totalScore imp = Fin 90 \<and> level imp = JStr level_medium
      \<and> direction imp = JStr direction_neutral"
    using k by (simp add: scoreImpact_def scoreImpact_try_def initOpenAI_def t90 parseImpact_def
        totals_platform_def validated_def getProp_def clampScore_def orElse_def mathMin_def
        mathMax_def ascii_def)
  have r2: "\<exists>imp. scoreImpact totals_platform example_env (Content (ascii ''n/a'')) = Inr imp
      \<and> totalScore imp = Fin 40 \<and> level imp = JStr level_medium
      \<and> direction imp = JStr direction_neutral"
    using k by (simp add: scoreImpact_def scoreImpact_try_def initOpenAI_def na parseImpact_def
        validated_parseFailureResult)
  have r3: "\<exists>imp. scoreImpact totals_platform example_env (Content text_total_10) = Inr imp
      \<and> totalScore imp = Fin 10 \<and> level imp = JStr level_medium
      \<and> direction imp = JStr direction_neutral"
    using k ne by (simp add: scoreImpact_def scoreImpact_try_def initOpenAI_def t10 parseImpact_def
        totals_platform_def validated_def getProp_def clampScore_def orElse_def mathMin_def
        mathMax_def ascii_def)
  from r0 r1 r2 r3 show ?thesis
    by (auto simp: example_news_def totals_oracle_def repliesOf_def scoreItem_def
        rankTotal_def errorImpact_def)
qed

theorem scoreAllNewsImpact_sorted_stable_witness:
  "map (\<lambda>x. (url x, rankTotal x))
       (scoreLoop totals_platform example_env totals_oracle 0 example_news)
     = [(ascii ''u0'', 40), (ascii ''u1'', 90), (ascii ''u2'', 40), (ascii ''u3'', 10)]
   \<and> map (\<lambda>x. (url x, rankTotal x))
       (scoreAllNewsImpact totals_platform example_env totals_oracle example_news)
     = [(ascii ''u1'', 90), (ascii ''u0'', 40), (ascii ''u2'', 40), (ascii ''u3'', 10)]
   \<and> map url (filter (\<lambda>z. rankTotal z = 40)
       (scoreAllNewsImpact totals_platform example_env totals_oracle example_news))
     = [ascii ''u0'', ascii ''u2'']"
proof -
  let ?xs = "scoreLoop totals_platform example_env totals_oracle 0 example_news"
  let ?out = "scoreAllNewsImpact totals_platform example_env totals_oracle example_news"
  from totals_run obtain a b c d where xs: "?xs = [a, b, c, d]"
    and u: "url a = ascii ''u0''" "url b = ascii ''u1''" "url c = ascii ''u2''"
      "url d = ascii ''u3''"
    and r: "rankTotal a = 40" "rankTotal b = 90" "rankTotal c = 40" "rankTotal d = 10"
    by (auto simp: map_eq_Cons_conv)
  have p: "plainTotal a" "plainTotal b" "plainTotal c" "plainTotal d"
    using plainTotal_scoreLoop[of totals_platform example_env totals_oracle 0 example_news] xs
    by simp_all
  have ne: "example_news \<noteq> []" by (simp add: example_news_def)
  have out: "?out = [b, a, c, d]"
    using ne xs by (simp add: scoreAllNewsImpact_def arraySort_def compareImpact_rank p r)
  have stable: "filter (\<lambda>z. rankTotal z = 40) ?out = filter (\<lambda>z. rankTotal z = 40) ?xs"
    using scoreAllNewsImpact_sorted_stable
      [of totals_platform example_env totals_oracle example_news 40] by blast
  have "map url (filter (\<lambda>z. rankTotal z = 40) ?out) = [ascii ''u0'', ascii ''u2'']"
    unfolding stable xs using u r by simp
  moreover have "map (\<lambda>x. (url x, rankTotal x)) ?out
     = [(ascii ''u1'', 90), (ascii ''u0'', 40), (ascii ''u2'', 40), (ascii ''u3'', 10)]"
    unfolding out using u r by simp
  ultimately show ?thesis using totals_run by blast
qed

section \<open>Properties of the relevance filter\<close>

lemma judgeRelevance_returns: "\<exists>v. judgeRelevance P e reply = Inr v"
  by (simp add: judgeRelevance_def split: sum.splits)

lemma judgeItem_fulfilled: "\<exists>v. judgeItem P e reply item = Fulfilled (item, v)"
  using judgeRelevance_returns[of P e reply] by (auto simp: judgeItem_def)

lemma processBatch_append:
  "processBatch P e replyTo i (xs @ ys)
     = (case processBatch P e replyTo i xs of
          Inl err \<Rightarrow> Inl err
        | Inr a \<Rightarrow>
            (case processBatch P e replyTo (i + length xs) ys of
               Inl err \<Rightarrow> Inl err
             | Inr b \<Rightarrow> Inr (a @ b)))"
  by (induction xs arbitrary: i) (auto split: sum.splits)

lemma filterBatches_flat:
  "filterBatches P e replyTo i news = processBatch P e replyTo i (drop i news)"
proof (induction P e replyTo i news rule: filterBatches.induct)
  case (1 P e replyTo i news)
  show ?case
  proof (cases "i < length news")
    case True
    have d: "drop i news = take 5 (drop i news) @ drop (i + 5) news"
      by (metis append_take_drop_id drop_drop add.commute)
    show ?thesis
    proof (cases "i + 5 \<le> length news")
      case le: True
      then have l: "length (take 5 (drop i news)) = 5" by simp
      have "processBatch P e replyTo i (drop i news)
         = (case processBatch P e replyTo i (take 5 (drop i news)) of
              Inl err \<Rightarrow> Inl err
            | Inr a \<Rightarrow>
                (case processBatch P e replyTo (i + 5) (drop (i + 5) news) of
                   Inl err \<Rightarrow> Inl err
                 | Inr b \<Rightarrow> Inr (a @ b)))"
        by (subst d, subst processBatch_append) (simp only: l)
      then show ?thesis using True "1.IH"
        by (subst filterBatches.simps) (simp split: sum.splits)
    next
      case False
      then have "take 5 (drop i news) = drop i news"
        "filterBatches P e replyTo (i + 5) news = Inr []"
        by (simp_all add: filterBatches.simps)
      then show ?thesis using True
        by (subst filterBatches.simps) (simp split: sum.splits)
    qed
  next
    case False
    then show ?thesis by (subst filterBatches.simps) simp
  qed
qed

lemma judgeRelevance_Threw:
  "judgeRelevance P e (Threw err)
     = Inr \<lparr>score = JNum (Fin 5),
            reason = JStr (prefix_judge_error
                       @ message (if unset (OPENAI_API_KEY e) then Error msg_no_api_key else err)),
            relevant = JBool True\<rparr>"
  by (simp add: judgeRelevance_def judgeRelevance_try_def initOpenAI_def)

lemma pushResult_Threw:
  "pushResult P (judgeItem P e (Threw err) item) item
     = Inr [item\<lparr>aiScore := Some (JNum (Fin 5)),
                  aiReason := Some (JStr (prefix_judge_error
                       @ message (if unset (OPENAI_API_KEY e) then Error msg_no_api_key else err)))\<rparr>]"
  by (simp add: pushResult_def judgeItem_def judgeRelevance_Threw)

lemma processBatch_abort:
  "k < length xs \<Longrightarrow>
   pushResult P (judgeItem P e (replyTo (i + k)) (xs ! k)) (xs ! k) = Inl err \<Longrightarrow>
   \<exists>err'. processBatch P e replyTo i xs = Inl err'"
proof (induction xs arbitrary: i k)
  case Nil
  then show ?case by simp
next
  case (Cons x xs)
  show ?case
  proof (cases k)
    case 0
    then show ?thesis using Cons.prems by simp
  next
    case (Suc j)
    then have "j < length xs"
      and "pushResult P (judgeItem P e (replyTo (Suc i + j)) (xs ! j)) (xs ! j) = Inl err"
      using Cons.prems by simp_all
    from Cons.IH[OF this] obtain err' where "processBatch P e replyTo (Suc i) xs = Inl err'"
      by blast
    then show ?thesis by (simp split: sum.splits)
  qed
qed

lemma processBatch_member:
  "processBatch P e replyTo i xs = Inr out \<Longrightarrow> k < length xs \<Longrightarrow>
   pushResult P (judgeItem P e (replyTo (i + k)) (xs ! k)) (xs ! k) = Inr l \<Longrightarrow>
   set l \<subseteq> set out"
proof (induction xs arbitrary: i k out)
  case Nil
  then show ?case by simp
next
  case (Cons x xs)
  from Cons.prems(1) obtain pushed rest where
    p: "pushResult P (judgeItem P e (replyTo i) x) x = Inr pushed"
       "processBatch P e replyTo (Suc i) xs = Inr rest" "out = pushed @ rest"
    by (auto split: sum.splits)
  show ?case
  proof (cases k)
    case 0
    then show ?thesis using Cons.prems p by simp
  next
    case (Suc j)
    then have "j < length xs"
      and "pushResult P (judgeItem P e (replyTo (Suc i + j)) (xs ! j)) (xs ! j) = Inr l"
      using Cons.prems by simp_all
    from Cons.IH[OF p(2) this] show ?thesis using p(3) by auto
  qed
qed

text \<open>
  What does hold of the filter: an item whose oracle call failed gets the verdict with
  score 5 and \<open>relevant: true\<close> whatever the environment, its own turn pushes it and
  cannot throw, and in every run of \<open>filterByAI\<close> that returns it is in the output.
\<close>

lemma filterByAI_failed_item_kept:
  assumes "filterByAI P e replyTo news = Inr out" and "k < length news"
    and "replyTo k = Threw err"
  shows "(news ! k)\<lparr>aiScore := Some (JNum (Fin 5)),
            aiReason := Some (JStr (prefix_judge_error
                 @ message (if unset (OPENAI_API_KEY e) then Error msg_no_api_key else err)))\<rparr>
          \<in> set out"
proof -
  from assms(2) have ne: "news \<noteq> []" by auto
  with assms(1) have pb: "processBatch P e replyTo 0 news = Inr out"
    by (simp add: filterByAI_def filterBatches_flat)
  have "pushResult P (judgeItem P e (replyTo (0 + k)) (news ! k)) (news ! k)
     = Inr [(news ! k)\<lparr>aiScore := Some (JNum (Fin 5)),
            aiReason := Some (JStr (prefix_judge_error
                 @ message (if unset (OPENAI_API_KEY e) then Error msg_no_api_key else err)))\<rparr>]"
    using assms(3) by (simp add: pushResult_Threw)
  from processBatch_member[OF pb assms(2) this] show ?thesis by simp
qed

lemma verdict_texts:
  "jsTrim text_relevant = text_relevant" "matchBraces text_relevant = Some text_relevant"
  "jsTrim text_strings = text_strings" "matchBraces text_strings = Some text_strings"
  "text_strings \<noteq> text_relevant"
  "matchBraces (jsTrim (ascii ''n/a'')) = None"
  by (simp_all add: jsTrim_def matchBraces_def isSpace_def text_relevant_def text_strings_def
      ascii_def)

lemma example_env_key: "\<not> unset (OPENAI_API_KEY example_env)"
  by (simp add: example_env_def unset_def ascii_def)

lemma judge_relevant_text:
  "judgeRelevance verdict_platform example_env (Content text_relevant)
     = Inr \<lparr>score = JNum (Fin 8), reason = JStr (ascii ''ok''), relevant = JBool True\<rparr>"
proof -
  have pv: "parseVerdict verdict_platform (jsTrim text_relevant)
      = [(ascii ''score'', JNum (Fin 8)), (ascii ''reason'', JStr (ascii ''ok'')),
         (ascii ''relevant'', JBool True)]"
    by (simp add: parseVerdict_def verdict_texts verdict_platform_def)
  show ?thesis
    using example_env_key
    by (simp add: judgeRelevance_def judgeRelevance_try_def initOpenAI_def pv Let_def)
      (simp add: getProp_def orElse_def ascii_def reason_format_error_def)
qed

lemma judge_no_json:
  "judgeRelevance verdict_platform example_env (Content (ascii ''n/a''))
     = Inr \<lparr>score = JNum (Fin 5), reason = JStr reason_format_error, relevant = JBool False\<rparr>"
proof -
  have pv: "parseVerdict verdict_platform (jsTrim (ascii ''n/a''))
      = [(ascii ''score'', JNum (Fin 5)), (ascii ''reason'', JStr reason_format_error),
         (ascii ''relevant'', JBool False)]"
    by (simp add: parseVerdict_def verdict_texts formatFallback_def verdict_platform_def)
  show ?thesis
    using example_env_key
    by (simp add: judgeRelevance_def judgeRelevance_try_def initOpenAI_def pv Let_def)
      (simp add: getProp_def orElse_def ascii_def reason_format_error_def)
qed

lemma unprintable_text:
  "jsTrim text_unprintable = text_unprintable"
  "matchBraces text_unprintable = Some text_unprintable"
  by (simp_all add: jsTrim_def matchBraces_def isSpace_def text_unprintable_def ascii_def)

lemma judge_unprintable:
  "judgeRelevance unprintable_platform example_env (Content text_unprintable)
     = Inr \<lparr>score = JObj [(ascii ''toString'', JNum (Fin 1))], reason = JStr reason_missing,
            relevant = JBool True\<rparr>"
proof -
  have pv: "parseVerdict unprintable_platform (jsTrim text_unprintable)
      = [(ascii ''score'', JObj [(ascii ''toString'', JNum (Fin 1))]),
         (ascii ''relevant'', JBool True)]"
    by (simp add: parseVerdict_def unprintable_text unprintable_platform_def)
  show ?thesis
    using example_env_key
    by (simp add: judgeRelevance_def judgeRelevance_try_def initOpenAI_def pv Let_def)
      (simp add: getProp_def orElse_def ascii_def)
qed

lemma filterByAI_sample_batch:
  "map_sum id (map (\<lambda>x. (url x, aiScore x)))
       (filterByAI verdict_platform example_env batch_replies example_batch)
     = Inr [(ascii ''u0'', Some (JNum (Fin 8))), (ascii ''u1'', Some (JNum (Fin 5))),
            (ascii ''u3'', Some (JNum (Fin 8))), (ascii ''u4'', Some (JNum (Fin 8)))]"
proof -
  have t: "judgeRelevance verdict_platform example_env (Threw (Error (ascii ''timeout'')))
      = Inr \<lparr>score = JNum (Fin 5), reason = JStr (prefix_judge_error @ ascii ''timeout''),
             relevant = JBool True\<rparr>"
    using example_env_key by (simp add: judgeRelevance_Threw)
  show ?thesis
    by (simp add: filterByAI_def filterBatches_flat example_batch_def example_news_def
        batch_replies_def repliesOf_def pushResult_def judgeItem_def
        judge_relevant_text judge_no_json t)
qed

text \<open>
  C8 (a defect of the code): the fallback verdict is as claimed (lemma
  \<open>judgeRelevance_Threw\<close>) and a failed call by itself never makes the filter throw
  (lemmas \<open>pushResult_Threw\<close>, \<open>filterByAI_failed_item_kept\<close>), but the batch is not
  isolated from every per-item failure: the log line of the results loop converts
  \<open>judgment.score\<close> to a string outside any \<open>try\<close>, so as soon as one item of the run has
  a verdict whose score cannot be converted, \<open>filterByAI\<close> throws and returns no item
  at all, the items whose call failed included.
\<close>

theorem filterByAI_aborts_on_unprintable_score:
  assumes "k < length news"
    and "judgeRelevance P e (replyTo k) = Inr v"
    and "stringifyError P (score v) = Some err"
  shows "\<exists>err'. filterByAI P e replyTo news = Inl err'"
proof -
  from assms(1) have ne: "news \<noteq> []" by auto
  have "pushResult P (judgeItem P e (replyTo (0 + k)) (news ! k)) (news ! k) = Inl err"
    using assms(2,3) by (simp add: pushResult_def judgeItem_def)
  from processBatch_abort[where replyTo = replyTo and i = 0, OF assms(1) this] show ?thesis
    using ne by (simp add: filterByAI_def filterBatches_flat)
qed

theorem filterByAI_aborts_on_unprintable_score_witness:
  "(1::nat) < length example_news_kept
   \<and> judgeRelevance unprintable_platform example_env (abort_replies 0)
       = Inr \<lparr>score = JNum (Fin 5), reason = JStr (prefix_judge_error @ ascii ''timeout''),
              relevant = JBool True\<rparr>
   \<and> judgeRelevance unprintable_platform example_env (abort_replies 1)
       = Inr \<lparr>score = JObj [(ascii ''toString'', JNum (Fin 1))], reason = JStr reason_missing,
              relevant = JBool True\<rparr>
   \<and> stringifyError unprintable_platform (JObj [(ascii ''toString'', JNum (Fin 1))])
       = Some TypeError_primitive
   \<and> filterByAI unprintable_platform example_env abort_replies example_news_kept
       = Inl TypeError_primitive"
proof -
  have l: "(1::nat) < length example_news_kept" by (simp add: example_news_kept_def)
  have r0: "abort_replies 0 = Threw (Error (ascii ''timeout''))"
    and r1: "abort_replies 1 = Content text_unprintable"
    and r1': "abort_replies (Suc 0) = Content text_unprintable"
    by (simp_all add: abort_replies_def repliesOf_def)
  have j0: "judgeRelevance unprintable_platform example_env (abort_replies 0)
       = Inr \<lparr>score = JNum (Fin 5), reason = JStr (prefix_judge_error @ ascii ''timeout''),
              relevant = JBool True\<rparr>"
    using example_env_key by (simp add: r0 judgeRelevance_Threw)
  have j1: "judgeRelevance unprintable_platform example_env (abort_replies 1)
       = Inr \<lparr>score = JObj [(ascii ''toString'', JNum (Fin 1))], reason = JStr reason_missing,
              relevant = JBool True\<rparr>"
    by (simp only: r1 judge_unprintable)
  have s: "stringifyError unprintable_platform (JObj [(ascii ''toString'', JNum (Fin 1))])
       = Some TypeError_primitive"
    by (simp add: ascii_def)
  have s': "stringifyError unprintable_platform
       (score \<lparr>score = JObj [(ascii ''toString'', JNum (Fin 1))], reason = JStr reason_missing,
              relevant = JBool True\<rparr>) = Some TypeError_primitive"
    using s by simp
  have ev: "filterByAI unprintable_platform example_env abort_replies example_news_kept
       = Inl TypeError_primitive"
    using j0 s
    by (simp add: filterByAI_def filterBatches_flat example_news_kept_def pushResult_def
        judgeItem_def r1' judge_unprintable)
  from filterByAI_aborts_on_unprintable_score [where replyTo = abort_replies and k = 1,
      OF l j1 s']
  have "\<exists>err'. filterByAI unprintable_platform example_env abort_replies example_news_kept
       = Inl err'" .
  with l j0 j1 s ev show ?thesis by blast
qed

text \<open>
  C10 (a defect of the code): \<open>judgeRelevance\<close> does always return a verdict (lemma
  \<open>judgeRelevance_returns\<close>), so every settled result is fulfilled (lemma
  \<open>judgeItem_fulfilled\<close>) and the rejected branch of \<open>filterByAI\<close> is never taken.  But
  the verdict's fields are not checked: when the parsed JSON has a non-empty string as
  \<open>score\<close> and any value as \<open>relevant\<close>, the verdict carries that string as its score
  and that value as its flag, against the function's documented return type
  \<open>{ score: number, reason: string, relevant: boolean }\<close>.
\<close>

theorem judgeRelevance_fields_unchecked:
  assumes "\<not> unset (OPENAI_API_KEY e)"
    and "matchBraces (jsTrim c) = Some m"
    and "jsonParse P m = Some result"
    and "getProp result ''score'' = Some (JStr s)" and "s \<noteq> []"
    and "getProp result ''relevant'' = Some r"
  shows "judgeRelevance P e (Content c)
     = Inr \<lparr>score = JStr s,
            reason = orElse (getProp result ''reason'') (JStr reason_missing),
            relevant = r\<rparr>"
  using assms
  by (simp add: judgeRelevance_def judgeRelevance_try_def initOpenAI_def parseVerdict_def
      orElse_def)

theorem judgeRelevance_fields_unchecked_witness:
  "unset (OPENAI_API_KEY example_env) = False
   \<and> matchBraces (jsTrim text_strings) = Some text_strings
   \<and> jsonParse verdict_platform text_strings
       = Some [(ascii ''score'', JStr (ascii ''8'')), (ascii ''relevant'', JStr (ascii ''yes''))]
   \<and> judgeRelevance verdict_platform example_env (Content text_strings)
       = Inr \<lparr>score = JStr (ascii ''8''), reason = JStr reason_missing,
              relevant = JStr (ascii ''yes'')\<rparr>"
proof -
  let ?result = "[(ascii ''score'', JStr (ascii ''8'')), (ascii ''relevant'', JStr (ascii ''yes''))]"
  have k: "\<not> unset (OPENAI_API_KEY example_env)" by (rule example_env_key)
  have m: "matchBraces (jsTrim text_strings) = Some text_strings" by (simp add: verdict_texts)
  have p: "jsonParse verdict_platform text_strings = Some ?result"
    by (simp add: verdict_platform_def verdict_texts)
  have g: "getProp ?result ''score'' = Some (JStr (ascii ''8''))" "ascii ''8'' \<noteq> []"
    "getProp ?result ''relevant'' = Some (JStr (ascii ''yes''))"
    "getProp ?result ''reason'' = None"
    by (simp_all add: getProp_def ascii_def)
  from judgeRelevance_fields_unchecked [OF k m p g(1) g(2) g(3)]
  have "judgeRelevance verdict_platform example_env (Content text_strings)
       = Inr \<lparr>score = JStr (ascii ''8''), reason = JStr reason_missing,
              relevant = JStr (ascii ''yes'')\<rparr>"
    by (simp add: g(4) orElse_def)
  with k m p show ?thesis by simp
qed

section \<open>Properties of the ledger\<close>




section \<open>Properties of delivery and commit\<close>

lemma splitMessage_default_returns:
  "\<exists>messages. splitMessage text TELEGRAM_MAX_MESSAGE_LENGTH = Some messages"
proof (cases "length text \<le> TELEGRAM_MAX_MESSAGE_LENGTH")
  case True
  then show ?thesis by (simp add: splitMessage_def)
next
  case False
  have pos: "0 < TELEGRAM_MAX_MESSAGE_LENGTH" by (simp add: TELEGRAM_MAX_MESSAGE_LENGTH_def)
  have "chunk_inv TELEGRAM_MAX_MESSAGE_LENGTH ([], [])" by (simp add: chunk_inv_def)
  from splitLines_good[OF pos this] obtain st' where
    "splitLines TELEGRAM_MAX_MESSAGE_LENGTH ([], []) (jsplit text) = Some st'" by blast
  then show ?thesis using False by (cases st') (simp add: splitMessage_def)
qed

lemma splitMessageDefault_short:
  "length text \<le> 4096 \<Longrightarrow> splitMessageDefault text = [text]"
  by (simp add: splitMessageDefault_def splitMessage_def TELEGRAM_MAX_MESSAGE_LENGTH_def)

lemma sendMessageWithRetry_refused:
  assumes "initBot e = Inr ()"
    and "net (attempts st) = Some e1" "net (attempts st + 1) = Some e2"
    and "net (attempts st + 2) = Some e3"
  shows "sendMessageWithRetry e net msg st = (Inl e3, st\<lparr>attempts := attempts st + 3\<rparr>)"
  using assms by (simp add: sendMessageWithRetry_def numeral_3_eq_3 Let_def)

lemma sendMessageWithRetry_accepted:
  assumes "initBot e = Inr ()" and "net (attempts st) = None"
  shows "sendMessageWithRetry e net msg st
     = (Inr True, st\<lparr>attempts := attempts st + 1, delivered := delivered st @ [msg]\<rparr>)"
  using assms by (simp add: sendMessageWithRetry_def numeral_3_eq_3)

lemma decimal_digit: "n < 10 \<Longrightarrow> decimal n = [of_nat (48 + n)]"
  by (subst decimal.simps) simp

text \<open>
  C1 (a defect of the code): whenever \<open>sendNewsSummaries\<close> returns, whatever count of
  delivered summaries it returns, \<open>main\<close> saves a record for every item of
  \<open>unsentNews\<close>; the count is not consulted.  In the one-message-per-summary branch a
  summary whose delivery failed after its retries is only skipped, so its item is
  recorded as sent although it was not delivered.
\<close>

theorem main_commits_all_unsent:
  assumes "loadSentNews now None file = (loaded, file1)"
    and "filterUnsentNews scoredNews (urls loaded) = unsent" and "unsent \<noteq> []"
    and "sendNewsSummaries e net (summarizeAllNews unsent) st = (Inr sentCount, st')"
  shows "main_from_step5 e net now clock None summarizeAllNews scoredNews file st
     = \<lparr>exitCode = 0,
        ledger = Document
          (Some (filter (notExpired (clock (length unsent)))
                   (records loaded @ newRecords clock unsent)))
          (Some (clock (Suc (length unsent)))),
        channel = st'\<rparr>"
  using assms by (simp add: main_from_step5_def saveSentNews_def Let_def)

lemma loadSentNews_Document:
  "loadSentNews now disk (Document (Some rs) u)
     = (\<lparr>urls = set (map r_url (filter (notExpired now) rs)),
         records = filter (notExpired now) rs\<rparr>, Document (Some rs) u)"
  by (simp add: loadSentNews_def Let_def)

lemma sample_send:
  "sendNewsSummaries example_env flaky_net [long_summary, long_summary]
       \<lparr>attempts = 0, delivered = []\<rparr>
     = (Inr 1, \<lparr>attempts = 4, delivered = [header 2 2 @ long_summary]\<rparr>)"
proof -
  have len: "length long_summary = 2500" by (simp add: long_summary_def)
  have bot: "initBot example_env = Inr ()"
    by (simp add: initBot_def example_env_def unset_def ascii_def)
  have h: "length (header (Suc 0) 2) = 15" "length (header 2 2) = 15"
    by (simp_all add: header_def decimal_digit ascii_def)
  have sp1: "splitMessageDefault (header (Suc 0) 2 @ long_summary)
      = [header (Suc 0) 2 @ long_summary]"
    by (rule splitMessageDefault_short) (simp add: h len)
  have sp2: "splitMessageDefault (header 2 2 @ long_summary) = [header 2 2 @ long_summary]"
    by (rule splitMessageDefault_short) (simp add: h len)
  have comb: "\<not> length (joinWith separator [long_summary, long_summary])
      \<le> TELEGRAM_MAX_MESSAGE_LENGTH"
    by (simp add: separator_def len TELEGRAM_MAX_MESSAGE_LENGTH_def)
  have first: "sendMessageWithRetry example_env flaky_net m \<lparr>attempts = 0, delivered = []\<rparr>
      = (Inl (Error (ascii ''ETIMEDOUT'')), \<lparr>attempts = 3, delivered = []\<rparr>)" for m
    using sendMessageWithRetry_refused[OF bot, of flaky_net "\<lparr>attempts = 0, delivered = []\<rparr>"]
    by (simp add: flaky_net_def)
  have second: "sendMessageWithRetry example_env flaky_net m \<lparr>attempts = 3, delivered = []\<rparr>
      = (Inr True, \<lparr>attempts = 4, delivered = [m]\<rparr>)" for m
    using sendMessageWithRetry_accepted[OF bot, of flaky_net "\<lparr>attempts = 3, delivered = []\<rparr>"]
    by (simp add: flaky_net_def)
  have two: "Suc (Suc 0) = 2" by simp
  have sep: "sendSeparately example_env flaky_net 2 0 [long_summary, long_summary] 0
        \<lparr>attempts = 0, delivered = []\<rparr>
      = (1, \<lparr>attempts = 4, delivered = [header 2 2 @ long_summary]\<rparr>)"
    by (simp add: sp1 sp2 first second two)
  have "sendNewsSummaries example_env flaky_net [long_summary, long_summary]
        \<lparr>attempts = 0, delivered = []\<rparr>
      = (case sendSeparately example_env flaky_net 2 0 [long_summary, long_summary] 0
              \<lparr>attempts = 0, delivered = []\<rparr> of
           (successCount, st') \<Rightarrow> (Inr successCount, st'))"
    using comb by (simp add: sendNewsSummaries_def bot two del: sendSeparately.simps)
  then show ?thesis by (simp only: sep prod.case)
qed

theorem main_commits_all_unsent_witness:
  "loadSentNews 2600000000 None example_ledger
       = (\<lparr>urls = {ascii ''recent''}, records = [recent_record]\<rparr>, example_ledger)
   \<and> filterUnsentNews example_news_kept {ascii ''recent''} = example_news_kept
   \<and> example_news_kept \<noteq> []
   \<and> sendNewsSummaries example_env flaky_net (long_summaries example_news_kept)
         \<lparr>attempts = 0, delivered = []\<rparr>
       = (Inr 1, \<lparr>attempts = 4, delivered = [header 2 2 @ long_summary]\<rparr>)
   \<and> main_from_step5 example_env flaky_net 2600000000 example_clock None long_summaries
         example_news_kept example_ledger \<lparr>attempts = 0, delivered = []\<rparr>
       = \<lparr>exitCode = 0,
          ledger = Document
            (Some [recent_record,
                   \<lparr>r_url = ascii ''u2'', r_title = ascii ''BTC'', sentAt = Some 2600000100\<rparr>,
                   \<lparr>r_url = ascii ''u3'', r_title = ascii ''Btc Fed'', sentAt = Some 2600000101\<rparr>])
            (Some 2600000103),
          channel = \<lparr>attempts = 4, delivered = [header 2 2 @ long_summary]\<rparr>\<rparr>"
proof -
  have fl: "filter (notExpired 2600000000) [old_record, recent_record] = [recent_record]"
    by (simp add: notExpired_def old_record_def recent_record_def maxAge_def MAX_AGE_DAYS_def)
  have ru: "r_url recent_record = ascii ''recent''" by (simp add: recent_record_def)
  have l: "loadSentNews 2600000000 None example_ledger
       = (\<lparr>urls = {ascii ''recent''}, records = [recent_record]\<rparr>, example_ledger)"
    by (simp only: example_ledger_def loadSentNews_Document fl) (simp add: ru)
  have f: "filterUnsentNews example_news_kept {ascii ''recent''} = example_news_kept"
    by (simp add: filterUnsentNews_def isNewsSent_def example_news_kept_def ascii_def)
  have f': "filterUnsentNews example_news_kept
       (urls \<lparr>urls = {ascii ''recent''}, records = [recent_record]\<rparr>) = example_news_kept"
    using f by simp
  have n: "example_news_kept \<noteq> []" by (simp add: example_news_kept_def)
  have s: "sendNewsSummaries example_env flaky_net (long_summaries example_news_kept)
         \<lparr>attempts = 0, delivered = []\<rparr>
       = (Inr 1, \<lparr>attempts = 4, delivered = [header 2 2 @ long_summary]\<rparr>)"
    using sample_send by (simp add: long_summaries_def example_news_kept_def)
  have r: "filter (notExpired (example_clock (length example_news_kept)))
        (records \<lparr>urls = {ascii ''recent''}, records = [recent_record]\<rparr>
           @ newRecords example_clock example_news_kept)
      = [recent_record,
         \<lparr>r_url = ascii ''u2'', r_title = ascii ''BTC'', sentAt = Some 2600000100\<rparr>,
         \<lparr>r_url = ascii ''u3'', r_title = ascii ''Btc Fed'', sentAt = Some 2600000101\<rparr>]"
    by (simp add: newRecords_def example_news_kept_def example_clock_def
        enumerate_eq_zip upt_rec notExpired_def recent_record_def maxAge_def MAX_AGE_DAYS_def)
  have c: "example_clock (Suc (length example_news_kept)) = 2600000103"
    by (simp add: example_news_kept_def example_clock_def)
  from main_commits_all_unsent [where summarizeAllNews = long_summaries
      and unsent = example_news_kept and clock = example_clock, OF l f' n s]
  have "main_from_step5 example_env flaky_net 2600000000 example_clock None long_summaries
         example_news_kept example_ledger \<lparr>attempts = 0, delivered = []\<rparr>
       = \<lparr>exitCode = 0,
          ledger = Document
            (Some [recent_record,
                   \<lparr>r_url = ascii ''u2'', r_title = ascii ''BTC'', sentAt = Some 2600000100\<rparr>,
                   \<lparr>r_url = ascii ''u3'', r_title = ascii ''Btc Fed'', sentAt = Some 2600000101\<rparr>])
            (Some 2600000103),
          channel = \<lparr>attempts = 4, delivered = [header 2 2 @ long_summary]\<rparr>\<rparr>"
    by (simp only: r c)
  with l f n s show ?thesis by blast
qed

end
